theory Spec2Isabelle
  imports Complex_Main
begin

section \<open>Characters and character classes of the patterns\<close>

text \<open>
  JavaScript strings are modelled as \<^typ>\<open>string\<close>. The character classes of the three
  regular expressions of the program are all ranges of ASCII characters, compared by
  character code as the regular expression engine does.
\<close>

definition code :: "char \<Rightarrow> nat" where
  "code c = of_char c"

definition in_range :: "char \<Rightarrow> char \<Rightarrow> char \<Rightarrow> bool" where
  "in_range lo hi c = (code lo \<le> code c \<and> code c \<le> code hi)"

text \<open>\<^verbatim>\<open>\d\<close> (without the unicode flag: exactly \<^verbatim>\<open>[0-9]\<close>).\<close>

definition isDigit :: "char \<Rightarrow> bool" where
  "isDigit c = in_range CHR ''0'' CHR ''9'' c"

text \<open>\<^verbatim>\<open>[a-z]\<close>\<close>

definition isLower :: "char \<Rightarrow> bool" where
  "isLower c = in_range CHR ''a'' CHR ''z'' c"

text \<open>\<^verbatim>\<open>[1-9A-HJ-NP-Za-km-z]\<close>\<close>

definition isBase58 :: "char \<Rightarrow> bool" where
  "isBase58 c = (in_range CHR ''1'' CHR ''9'' c \<or> in_range CHR ''A'' CHR ''H'' c \<or>
     in_range CHR ''J'' CHR ''N'' c \<or> in_range CHR ''P'' CHR ''Z'' c \<or>
     in_range CHR ''a'' CHR ''k'' c \<or> in_range CHR ''m'' CHR ''z'' c)"

text \<open>\<^verbatim>\<open>[A-Za-z2-7]\<close>\<close>

definition isBase32 :: "char \<Rightarrow> bool" where
  "isBase32 c = (in_range CHR ''A'' CHR ''Z'' c \<or> in_range CHR ''a'' CHR ''z'' c \<or>
     in_range CHR ''2'' CHR ''7'' c)"

text \<open>\<^verbatim>\<open>[A-Z2-7]\<close>\<close>

definition isBase32Upper :: "char \<Rightarrow> bool" where
  "isBase32Upper c = (in_range CHR ''A'' CHR ''Z'' c \<or> in_range CHR ''2'' CHR ''7'' c)"

text \<open>\<^verbatim>\<open>[0-9A-F]\<close>\<close>

definition isHexUpper :: "char \<Rightarrow> bool" where
  "isHexUpper c = (in_range CHR ''0'' CHR ''9'' c \<or> in_range CHR ''A'' CHR ''F'' c)"

text \<open>
  \<open>strip_prefix p s\<close> matches the literal \<open>p\<close> at the start of \<open>s\<close> and returns what follows.
\<close>

fun strip_prefix :: "string \<Rightarrow> string \<Rightarrow> string option" where
  "strip_prefix [] s = Some s"
| "strip_prefix (p # ps) [] = None"
| "strip_prefix (p # ps) (c # cs) = (if p = c then strip_prefix ps cs else None)"

text \<open>
  \<open>at_least n P s\<close>: the quantifier \<^verbatim>\<open>{n,}\<close> on a character class, at the start
  of \<open>s\<close>, with nothing required after it: it matches when at least \<open>n\<close> characters of the
  class stand there.
\<close>

definition at_least :: "nat \<Rightarrow> (char \<Rightarrow> bool) \<Rightarrow> string \<Rightarrow> bool" where
  "at_least n P s = (n \<le> length (takeWhile P s))"

section \<open>JavaScript numbers that are file indices\<close>

text \<open>
  The indices of the program are the results of \<^verbatim>\<open>Number(d)\<close> for a captured digit
  sequence \<open>d\<close>. A JavaScript number is an IEEE 754 double, so these values are the
  non-negative integers a double represents, and \<^verbatim>\<open>Infinity\<close>.
\<close>

datatype number = Finite nat | Infinity

definition digit_val :: "char \<Rightarrow> nat" where
  "digit_val c = code c - 48"

text \<open>The mathematical value of a decimal digit sequence.\<close>

definition digits_value :: "string \<Rightarrow> nat" where
  "digits_value ds = foldl (\<lambda>a c. 10 * a + digit_val c) 0 ds"

text \<open>The number of binary digits of a natural number.\<close>

fun bitlen :: "nat \<Rightarrow> nat" where
  "bitlen n = (if n = 0 then 0 else Suc (bitlen (n div 2)))"

declare bitlen.simps [simp del]

text \<open>
  Rounding a natural number to the nearest double, ties to the even significand
  (53 significant bits); from \<open>2 ^ 1024 - 2 ^ 970\<close> on the result is \<^verbatim>\<open>Infinity\<close>.
\<close>

definition round_double :: "nat \<Rightarrow> number" where
  "round_double n =
     (if n < 2 ^ 53 then Finite n
      else let e = bitlen n - 53;
               q = n div 2 ^ e;
               r = n mod 2 ^ e;
               half = 2 ^ (e - 1);
               q' = (if half < r \<or> (r = half \<and> odd q) then q + 1 else q)
           in if 2 ^ 1024 \<le> q' * 2 ^ e then Infinity else Finite (q' * 2 ^ e))"

text \<open>
  \<^verbatim>\<open>Number(d)\<close> on a non-empty sequence of decimal digits: the decimal value (leading
  zeros do not matter), rounded to a double.
\<close>

definition Number :: "string \<Rightarrow> number" where
  "Number ds = round_double (digits_value ds)"

text \<open>The decimal digits of a natural number, without leading zeros.\<close>

definition digit_char :: "nat \<Rightarrow> char" where
  "digit_char d = char_of (48 + d)"

fun decimal :: "nat \<Rightarrow> string" where
  "decimal n = (if n < 10 then [digit_char n] else decimal (n div 10) @ [digit_char (n mod 10)])"

declare decimal.simps [simp del]

text \<open>
  Number-to-string conversion (radix 10), as a template literal applies it to an index.
  The digits printed are the shortest decimal numeral that rounds to the number: for
  \<open>k = 1, 2, \<dots>, 17\<close> significant digits the two numerals with \<open>k\<close> significant digits next
  to the value are tried, the nearer one first. A numeral of at most 21 digits is printed
  in full, a longer one in exponent notation.
\<close>

definition candidates :: "nat \<Rightarrow> nat list" where
  "candidates v =
     concat (map (\<lambda>k. let p = 10 ^ (length (decimal v) - k);
                           lo = v - v mod p;
                           hi = lo + p
                       in if v - lo < hi - v \<or> (v - lo = hi - v \<and> even (lo div p))
                          then [lo, hi] else [hi, lo])
                 [1..<18])"

definition shortest_numeral :: "nat \<Rightarrow> nat" where
  "shortest_numeral v =
     (case filter (\<lambda>c. round_double c = Finite v) (candidates v) of
        [] \<Rightarrow> v
      | c # _ \<Rightarrow> c)"

definition strip_zeros :: "string \<Rightarrow> string" where
  "strip_zeros ds = rev (dropWhile (\<lambda>c. c = CHR ''0'') (rev ds))"

definition exponent_form :: "nat \<Rightarrow> string" where
  "exponent_form c =
     (let ds = decimal c; s = strip_zeros ds
      in (if length s \<le> 1 then s else hd s # CHR ''.'' # tl s) @ ''e+'' @ decimal (length ds - 1))"

definition Number_toString :: "number \<Rightarrow> string" where
  "Number_toString x =
     (case x of
        Infinity \<Rightarrow> ''Infinity''
      | Finite v \<Rightarrow>
          (let c = shortest_numeral v
           in if length (decimal c) \<le> 21 then decimal c else exponent_form c))"

section \<open>File names\<close>

text \<open>
  \<^verbatim>\<open>path.basename\<close> (POSIX): the last component of a path, trailing separators ignored.
\<close>

definition basename :: "string \<Rightarrow> string" where
  "basename p =
     rev (takeWhile (\<lambda>c. c \<noteq> CHR ''/'') (dropWhile (\<lambda>c. c = CHR ''/'') (rev p)))"

text \<open>
  \<^verbatim>\<open>tokenMetadataNamePattern = /^(\d+)\.json$/\<close>: \<open>exec\<close> returns the captured digits.
  The digits are taken greedily; what follows them must be exactly \<^verbatim>\<open>.json\<close>.
\<close>

definition tokenMetadataNamePattern_exec :: "string \<Rightarrow> string option" where
  "tokenMetadataNamePattern_exec s =
     (let ds = takeWhile isDigit s; rest = dropWhile isDigit s
      in if ds \<noteq> [] \<and> rest = ''.json'' then Some ds else None)"

text \<open>
  The index of a token metadata file: lines 57 and 66 of \<^verbatim>\<open>readMetadataDir\<close>, the match
  of the pattern and \<^verbatim>\<open>Number(info[1])\<close> (the specification calls this
  \<^verbatim>\<open>parseTokenMetadataName\<close>).
\<close>

definition parseTokenMetadataName :: "string \<Rightarrow> number option" where
  "parseTokenMetadataName s = map_option Number (tokenMetadataNamePattern_exec s)"

datatype MediaCategory = Image | Asset | Icon

text \<open>
  \<^verbatim>\<open>mediaNamePattern = /^(?:(image|asset|icon)-)?(\d+)\.([a-z]+)$/\<close>. The optional group:
  when one of the three prefixes stands at the start it is taken (without it the name would
  have to start with a digit, so there is nothing to backtrack to).
\<close>

definition category_prefix :: "string \<Rightarrow> MediaCategory option \<times> string" where
  "category_prefix s =
     (case strip_prefix ''image-'' s of
        Some t \<Rightarrow> (Some Image, t)
      | None \<Rightarrow>
     (case strip_prefix ''asset-'' s of
        Some t \<Rightarrow> (Some Asset, t)
      | None \<Rightarrow>
     (case strip_prefix ''icon-'' s of
        Some t \<Rightarrow> (Some Icon, t)
      | None \<Rightarrow> (None, s))))"

definition mediaNamePattern_exec :: "string \<Rightarrow> (MediaCategory option \<times> string \<times> string) option" where
  "mediaNamePattern_exec s =
     (let (category, t) = category_prefix s;
          ds = takeWhile isDigit t
      in case dropWhile isDigit t of
           [] \<Rightarrow> None
         | c # ext \<Rightarrow>
             if ds \<noteq> [] \<and> c = CHR ''.'' \<and> ext \<noteq> [] \<and> list_all isLower ext
             then Some (category, ds, ext) else None)"

definition isImageTypeSupported :: "string \<Rightarrow> bool" where
  "isImageTypeSupported extension =
     (extension \<in> set [''jpg'', ''jpeg'', ''png'', ''webp'', ''gif'', ''svg''])"

section \<open>Values, records and the environment\<close>

text \<open>
  The values \<^verbatim>\<open>JSON.parse\<close> returns. A number is a double: a rational, or an infinity
  (a literal too large for a double). An object lists its properties, each key once.
\<close>

datatype jsnum = Fin rat | PosInf | NegInf

datatype json =
    JNull
  | JBool bool
  | JNumber jsnum
  | JString string
  | JArray "json list"
  | JObject "(string \<times> json) list"

text \<open>Truthiness of a value; \<open>None\<close> is \<^verbatim>\<open>undefined\<close>.\<close>

fun truthy :: "json option \<Rightarrow> bool" where
  "truthy None = False"
| "truthy (Some JNull) = False"
| "truthy (Some (JBool b)) = b"
| "truthy (Some (JNumber n)) = (n \<noteq> Fin 0)"
| "truthy (Some (JString s)) = (s \<noteq> [])"
| "truthy (Some (JArray xs)) = True"
| "truthy (Some (JObject kvs)) = True"

text \<open>
  \<^verbatim>\<open>v?.k\<close> for one of the property names the program reads (\<^verbatim>\<open>name\<close>, \<^verbatim>\<open>image\<close>,
  \<^verbatim>\<open>description\<close>, \<^verbatim>\<open>attributes\<close>, \<^verbatim>\<open>trait_type\<close>, \<^verbatim>\<open>value\<close>): only an object can
  have it; on every other value, \<^verbatim>\<open>null\<close> included, the result is \<^verbatim>\<open>undefined\<close>.
\<close>

fun opt_member :: "json \<Rightarrow> string \<Rightarrow> json option" where
  "opt_member (JObject kvs) k = map_of kvs k"
| "opt_member v k = None"

datatype error = Error string | TypeError string

text \<open>\<^verbatim>\<open>v.k\<close>: as above, but reading a property of \<^verbatim>\<open>null\<close> throws.\<close>

definition member :: "json \<Rightarrow> string \<Rightarrow> error + json option" where
  "member v k = (if v = JNull then Inl (TypeError (''Cannot read properties of null: '' @ k))
                 else Inr (opt_member v k))"

record OpenSeaToken =
  token_file :: string
  token_index :: number
  token_metadata :: json

record MediaFileInfo =
  media_file :: string
  media_category :: MediaCategory
  media_index :: number
  media_extension :: string

text \<open>The value \<^verbatim>\<open>buildFileInfo\<close> returns for an image.\<close>

record FileInfo =
  width :: nat
  height :: nat
  hashFunction :: string
  hash :: string
  url :: string

record Attribute =
  key :: "json option"
  val :: "json option"

record Link =
  title :: string
  link_url :: string

text \<open>The object under \<^verbatim>\<open>LSP4Metadata\<close>; \<open>None\<close> is \<^verbatim>\<open>undefined\<close>.\<close>

record LSP4Metadata =
  name :: "json option"
  description :: "json option"
  attributes :: "Attribute list option"
  icon :: "FileInfo option"
  images :: "FileInfo option list list option"
  links :: "Link list option"

text \<open>What \<^verbatim>\<open>sharp(file).metadata()\<close> reports of an image.\<close>

record ImageInfo =
  info_width :: "nat option"
  info_height :: "nat option"

text \<open>
  The file system and the library functions the program calls. \<open>Inl\<close> is a thrown error.
  \<open>path_join a b\<close> is \<^verbatim>\<open>path.normalize(path.join(a, b))\<close>. The files the program reads
  are not the files it writes, so reading does not depend on the writes before it.
\<close>

record env =
  readdir :: "string \<Rightarrow> error + string list"
  readFile :: "string \<Rightarrow> error + string"
  JSON_parse :: "string \<Rightarrow> error + json"
  path_join :: "string \<Rightarrow> string \<Rightarrow> string"
  sharp_metadata :: "string \<Rightarrow> error + ImageInfo"
  keccak256 :: "string \<Rightarrow> string"
  JSON_stringify :: "LSP4Metadata \<Rightarrow> string"
  mkdir :: "string \<Rightarrow> error + unit"
  writeFile :: "string \<Rightarrow> string \<Rightarrow> error + unit"

text \<open>What the program does to the console, the file system and the progress bar.\<close>

datatype event =
    ConsoleWarn string
  | ConsoleError error
  | Mkdir string
  | WriteFile string string
  | ProgressStart nat
  | ProgressIncrement
  | ProgressStop

section \<open>Scanning the metadata directory\<close>

text \<open>
  \<open>readMetadataFile\<close> is the body of the loop of \<^verbatim>\<open>readMetadataDir\<close> for one listed file:
  the console output, and either the error thrown or the token pushed (if any). An error
  thrown by \<^verbatim>\<open>readFile\<close> or \<^verbatim>\<open>JSON.parse\<close> is caught by the inner \<^verbatim>\<open>catch\<close>, which throws
  the error naming the file. \<open>readMetadataFiles\<close> is the loop: a thrown error ends it.
\<close>

definition missing_warning :: "string \<Rightarrow> event" where
  "missing_warning metadataFile = ConsoleWarn (''Token is missing name and/or image: '' @ metadataFile)"

definition readMetadataFile :: "env \<Rightarrow> string \<Rightarrow> event list \<times> (error + OpenSeaToken option)" where
  "readMetadataFile E metadataFile =
     (case tokenMetadataNamePattern_exec (basename metadataFile) of
        None \<Rightarrow> ([], Inr None)
      | Some digits \<Rightarrow>
          (case readFile E metadataFile of
             Inl _ \<Rightarrow> ([], Inl (Error (''Failed to read token: '' @ metadataFile)))
           | Inr data \<Rightarrow>
               (case JSON_parse E data of
                  Inl _ \<Rightarrow> ([], Inl (Error (''Failed to read token: '' @ metadataFile)))
                | Inr metadata \<Rightarrow>
                    if \<not> truthy (opt_member metadata ''name'') \<or>
                       \<not> truthy (opt_member metadata ''image'')
                    then ([missing_warning metadataFile], Inr None)
                    else ([], Inr (Some \<lparr>token_file = metadataFile,
                                          token_index = Number digits,
                                          token_metadata = metadata\<rparr>)))))"

fun readMetadataFiles :: "env \<Rightarrow> string \<Rightarrow> string list \<Rightarrow> event list \<times> (error + OpenSeaToken list)" where
  "readMetadataFiles E dir [] = ([], Inr [])"
| "readMetadataFiles E dir (f # files) =
     (case readMetadataFile E (path_join E dir f) of
        (out, Inl e) \<Rightarrow> (out, Inl e)
      | (out, Inr t) \<Rightarrow>
          (case readMetadataFiles E dir files of
             (out', Inl e) \<Rightarrow> (out @ out', Inl e)
           | (out', Inr result) \<Rightarrow>
               (out @ out', Inr (case t of None \<Rightarrow> result | Some token \<Rightarrow> token # result))))"

text \<open>
  \<^verbatim>\<open>readMetadataDir\<close>: the outer \<^verbatim>\<open>catch\<close> prints whatever was thrown (by \<^verbatim>\<open>readdir\<close>
  or in the loop) and throws the error naming the directory.
\<close>

definition readMetadataDir :: "env \<Rightarrow> string \<Rightarrow> event list \<times> (error + OpenSeaToken list)" where
  "readMetadataDir E dir =
     (case (case readdir E dir of
              Inl e \<Rightarrow> ([], Inl e)
            | Inr files \<Rightarrow> readMetadataFiles E dir files) of
        (out, Inl e) \<Rightarrow>
          (out @ [ConsoleError e],
           Inl (Error (''Failed to read tokens from metadata directory: '' @ dir)))
      | (out, Inr result) \<Rightarrow> (out, Inr result))"

section \<open>Scanning the media directory\<close>

definition unsupported_warning :: "string \<Rightarrow> string \<Rightarrow> event" where
  "unsupported_warning extension f =
     ConsoleWarn (''Unsupported image file type '' @ [CHR 0x27] @ extension @ [CHR 0x27] @ '': '' @ f)"

definition parseMediaFile :: "string \<Rightarrow> event list \<times> MediaFileInfo option" where
  "parseMediaFile f =
     (case mediaNamePattern_exec (basename f) of
        None \<Rightarrow> ([], None)
      | Some (category, digits, extension) \<Rightarrow>
          (case category of
             None \<Rightarrow>
               if isImageTypeSupported extension
               then ([], Some \<lparr>media_file = f, media_category = Image,
                               media_index = Number digits, media_extension = extension\<rparr>)
               else ([unsupported_warning extension f], None)
           | Some c \<Rightarrow>
               ([], Some \<lparr>media_file = f, media_category = c,
                          media_index = Number digits, media_extension = extension\<rparr>)))"

fun readMediaFiles :: "env \<Rightarrow> string \<Rightarrow> string list \<Rightarrow> event list \<times> MediaFileInfo list" where
  "readMediaFiles E dir [] = ([], [])"
| "readMediaFiles E dir (f # files) =
     (let mediaFile = path_join E dir f;
          (out, info) = parseMediaFile mediaFile;
          (out', result) = readMediaFiles E dir files
      in (out @ out', (case info of None \<Rightarrow> result | Some i \<Rightarrow> i # result)))"

definition readMediaDir :: "env \<Rightarrow> string \<Rightarrow> event list \<times> (error + MediaFileInfo list)" where
  "readMediaDir E dir =
     (case readdir E dir of
        Inl e \<Rightarrow> ([ConsoleError e], Inl (Error (''Failed to read media from directory: '' @ dir)))
      | Inr files \<Rightarrow> (case readMediaFiles E dir files of (out, result) \<Rightarrow> (out, Inr result)))"

section \<open>Building the description of a media file\<close>

text \<open>\<^verbatim>\<open>Buffer.toString('hex')\<close>: two lower-case hexadecimal digits for each byte.\<close>

definition hex_digit :: "nat \<Rightarrow> char" where
  "hex_digit d = ''0123456789abcdef'' ! d"

definition hex :: "string \<Rightarrow> string" where
  "hex bytes = concat (map (\<lambda>b. [hex_digit (code b div 16), hex_digit (code b mod 16)]) bytes)"

text \<open>
  \<^verbatim>\<open>buildFileInfo\<close>. Its body is one \<^verbatim>\<open>if (info.category === 'image')\<close>; for every other
  category the function falls off its end and returns \<^verbatim>\<open>undefined\<close>. A width or height
  that is \<^verbatim>\<open>undefined\<close> or 0 is falsy.
\<close>

definition buildFileInfo :: "env \<Rightarrow> string \<Rightarrow> MediaFileInfo \<Rightarrow> error + FileInfo option" where
  "buildFileInfo E baseUri info =
     (if media_category info = Image then
        (case sharp_metadata E (media_file info) of
           Inl e \<Rightarrow> Inl e
         | Inr imageInfo \<Rightarrow>
             (case (info_width imageInfo, info_height imageInfo) of
                (Some w, Some h) \<Rightarrow>
                  if w = 0 \<or> h = 0
                  then Inl (Error (''Failed to read image: '' @ media_file info))
                  else (case readFile E (media_file info) of
                          Inl e \<Rightarrow> Inl e
                        | Inr content \<Rightarrow>
                            Inr (Some \<lparr>width = w,
                                       height = h,
                                       hashFunction = ''keccak256(bytes)'',
                                       hash = ''0x'' @ hex (keccak256 E content),
                                       url = baseUri @ ''/'' @ Number_toString (media_index info) @
                                             ''.'' @ media_extension info\<rparr>))
              | _ \<Rightarrow> Inl (Error (''Failed to read image: '' @ media_file info))))
      else Inr None)"

section \<open>Assembling the output\<close>

text \<open>
  \<^verbatim>\<open>token.metadata.attributes?.map(...)\<close>: \<^verbatim>\<open>undefined\<close> when the property is
  \<^verbatim>\<open>undefined\<close> or \<^verbatim>\<open>null\<close>; on an array each element is mapped (an element \<^verbatim>\<open>null\<close>
  throws); any other value has no \<^verbatim>\<open>map\<close> function, which throws.
\<close>

definition attribute_of :: "json \<Rightarrow> error + Attribute" where
  "attribute_of a =
     (case member a ''trait_type'' of
        Inl e \<Rightarrow> Inl e
      | Inr k \<Rightarrow> Inr \<lparr>key = k, val = opt_member a ''value''\<rparr>)"

text \<open>The results of a list of computations, or the error of the first that failed.\<close>

fun all_results :: "(error + 'a) list \<Rightarrow> error + 'a list" where
  "all_results [] = Inr []"
| "all_results (Inl e # rs) = Inl e"
| "all_results (Inr x # rs) = (case all_results rs of Inl e \<Rightarrow> Inl e | Inr xs \<Rightarrow> Inr (x # xs))"

definition map_attributes :: "json \<Rightarrow> error + Attribute list option" where
  "map_attributes metadata =
     (case member metadata ''attributes'' of
        Inl e \<Rightarrow> Inl e
      | Inr None \<Rightarrow> Inr None
      | Inr (Some JNull) \<Rightarrow> Inr None
      | Inr (Some (JArray as)) \<Rightarrow>
          (case all_results (map attribute_of as) of
             Inl e \<Rightarrow> Inl e
           | Inr xs \<Rightarrow> Inr (Some xs))
      | Inr (Some _) \<Rightarrow> Inl (TypeError ''attributes.map is not a function''))"

text \<open>
  One iteration of the loop of \<^verbatim>\<open>buildMetadata\<close>. \<^verbatim>\<open>Promise.all\<close> over the image jobs
  fails when one of them fails (the error reported here is that of the first failing job
  in list order). \<^verbatim>\<open>progress.increment()\<close> is the last statement of the iteration.
\<close>

definition findIcon :: "MediaFileInfo list option \<Rightarrow> number \<Rightarrow> MediaFileInfo option" where
  "findIcon mediaFiles i =
     (case mediaFiles of
        None \<Rightarrow> None
      | Some ms \<Rightarrow> find (\<lambda>info. media_index info = i \<and> media_category info = Icon) ms)"

definition buildIcon :: "env \<Rightarrow> string \<Rightarrow> MediaFileInfo list option \<Rightarrow> number \<Rightarrow> error + FileInfo option" where
  "buildIcon E baseUri mediaFiles i =
     (case findIcon mediaFiles i of
        None \<Rightarrow> Inr None
      | Some iconInfo \<Rightarrow> buildFileInfo E baseUri iconInfo)"

definition buildImages ::
  "env \<Rightarrow> string \<Rightarrow> MediaFileInfo list option \<Rightarrow> number \<Rightarrow> error + FileInfo option list list option" where
  "buildImages E baseUri mediaFiles i =
     (case mediaFiles of
        None \<Rightarrow> Inr None
      | Some ms \<Rightarrow>
          (case all_results (map (buildFileInfo E baseUri)
                  (filter (\<lambda>info. media_index info = i \<and> media_category info = Image) ms)) of
             Inl e \<Rightarrow> Inl e
           | Inr ds \<Rightarrow> Inr (Some [ds])))"

text \<open>The object written for a token, when nothing throws before it is complete.\<close>

definition tokenMetadata ::
  "env \<Rightarrow> string \<Rightarrow> Link list option \<Rightarrow> MediaFileInfo list option \<Rightarrow> OpenSeaToken \<Rightarrow> error + LSP4Metadata" where
  "tokenMetadata E baseUri lnks mediaFiles token =
     (case map_attributes (token_metadata token) of
        Inl e \<Rightarrow> Inl e
      | Inr attrs \<Rightarrow>
     (case buildIcon E baseUri mediaFiles (token_index token) of
        Inl e \<Rightarrow> Inl e
      | Inr icn \<Rightarrow>
     (case buildImages E baseUri mediaFiles (token_index token) of
        Inl e \<Rightarrow> Inl e
      | Inr imgs \<Rightarrow>
          Inr \<lparr>name = opt_member (token_metadata token) ''name'',
               description = opt_member (token_metadata token) ''description'',
               attributes = attrs,
               icon = icn,
               images = imgs,
               links = lnks\<rparr>)))"

definition buildToken ::
  "env \<Rightarrow> string \<Rightarrow> string \<Rightarrow> Link list option \<Rightarrow> MediaFileInfo list option \<Rightarrow> OpenSeaToken
     \<Rightarrow> event list \<times> (error + unit)" where
  "buildToken E outputDir baseUri lnks mediaFiles token =
     (let f = path_join E outputDir (Number_toString (token_index token) @ ''.json'')
      in case tokenMetadata E baseUri lnks mediaFiles token of
           Inl e \<Rightarrow> ([], Inl e)
         | Inr metadata \<Rightarrow>
             (let data = JSON_stringify E metadata
              in case writeFile E f data of
                   Inl e \<Rightarrow> ([WriteFile f data], Inl e)
                 | Inr _ \<Rightarrow> ([WriteFile f data, ProgressIncrement], Inr ())))"

fun buildTokens ::
  "env \<Rightarrow> string \<Rightarrow> string \<Rightarrow> Link list option \<Rightarrow> MediaFileInfo list option \<Rightarrow> OpenSeaToken list
     \<Rightarrow> event list \<times> (error + unit)" where
  "buildTokens E outputDir baseUri lnks mediaFiles [] = ([], Inr ())"
| "buildTokens E outputDir baseUri lnks mediaFiles (token # tokens) =
     (case buildToken E outputDir baseUri lnks mediaFiles token of
        (out, Inl e) \<Rightarrow> (out, Inl e)
      | (out, Inr _) \<Rightarrow>
          (case buildTokens E outputDir baseUri lnks mediaFiles tokens of
             (out', r) \<Rightarrow> (out @ out', r)))"

text \<open>
  \<^verbatim>\<open>buildMetadata\<close>: \<^verbatim>\<open>mkdir\<close> comes before the \<^verbatim>\<open>try\<close>; the loop is inside it, and
  \<^verbatim>\<open>progress.stop()\<close> is its \<^verbatim>\<open>finally\<close>.
\<close>

definition buildMetadata ::
  "env \<Rightarrow> string \<Rightarrow> string \<Rightarrow> Link list option \<Rightarrow> OpenSeaToken list option \<Rightarrow> MediaFileInfo list option
     \<Rightarrow> event list \<times> (error + unit)" where
  "buildMetadata E outputDir baseUri lnks openSeaTokens mediaFiles =
     (case mkdir E outputDir of
        Inl e \<Rightarrow> ([Mkdir outputDir], Inl e)
      | Inr _ \<Rightarrow>
          (case (case openSeaTokens of
                   None \<Rightarrow> ([], Inr ())
                 | Some tokens \<Rightarrow>
                     (case buildTokens E outputDir baseUri lnks mediaFiles tokens of
                        (out, r) \<Rightarrow> (ProgressStart (length tokens) # out, r))) of
             (out, r) \<Rightarrow> (Mkdir outputDir # out @ [ProgressStop], r)))"

section \<open>Validating the base URI\<close>

text \<open>
  \<^verbatim>\<open>uriPattern\<close>: the scheme, then one of five alternatives, each a literal and a character
  class repeated at least a number of times. The pattern has no anchors, so \<^verbatim>\<open>exec\<close>
  looks for a match starting at any position of the input.
\<close>

definition after_literal :: "string \<Rightarrow> nat \<Rightarrow> (char \<Rightarrow> bool) \<Rightarrow> string \<Rightarrow> bool" where
  "after_literal lit n P s = (case strip_prefix lit s of None \<Rightarrow> False | Some t \<Rightarrow> at_least n P t)"

definition uriPattern_here :: "string \<Rightarrow> bool" where
  "uriPattern_here s =
     (case strip_prefix ''ipfs://'' s of
        None \<Rightarrow> False
      | Some t \<Rightarrow>
          after_literal ''Qm'' 44 isBase58 t \<or>
          after_literal ''b'' 58 isBase32 t \<or>
          after_literal ''B'' 58 isBase32Upper t \<or>
          after_literal ''z'' 48 isBase58 t \<or>
          after_literal ''F'' 50 isHexUpper t)"

fun uriPattern_exec :: "string \<Rightarrow> bool" where
  "uriPattern_exec [] = uriPattern_here []"
| "uriPattern_exec (c # cs) = (uriPattern_here (c # cs) \<or> uriPattern_exec cs)"

text \<open>
  The validator \<^verbatim>\<open>IpfsUrl\<close>: \<^verbatim>\<open>assert.isString\<close> throws on anything that is not a string.
\<close>

definition IpfsUrl :: "json \<Rightarrow> error + json" where
  "IpfsUrl input =
     (case input of
        JString s \<Rightarrow> if uriPattern_exec s then Inr input else Inl (Error ''not ipfs url'')
      | _ \<Rightarrow> Inl (Error ''not a string''))"

text \<open>
  The \<^verbatim>\<open>validate\<close> function of the prompt for the base URI: \<^verbatim>\<open>true\<close>, or the message
  that the prompt shows before it asks again.
\<close>

datatype validation = Valid | Message string

definition invalid_message :: string where
  "invalid_message = ''Invalid IPFS URL. Please enter a valid IPFS URL, e.g. ipfs://bafybeiesesamfxkgronf4pf4maauei6svfas4vvzlhm7o4kzwnvbb3h5i4''"

definition validate_baseUri :: "json \<Rightarrow> validation" where
  "validate_baseUri input =
     (case IpfsUrl input of
        Inr _ \<Rightarrow> Valid
      | Inl _ \<Rightarrow> Message invalid_message)"

section \<open>The address formats in the words of the specification\<close>

text \<open>
  The specification's reading of the base URI check: the input is the scheme token followed
  by an address in one of the known formats, and nothing else.
\<close>

definition address_body :: "string \<Rightarrow> nat \<Rightarrow> (char \<Rightarrow> bool) \<Rightarrow> string \<Rightarrow> bool" where
  "address_body lit n P a =
     (case strip_prefix lit a of None \<Rightarrow> False | Some body \<Rightarrow> n \<le> length body \<and> list_all P body)"

definition known_address :: "string \<Rightarrow> bool" where
  "known_address a =
     (address_body ''Qm'' 44 isBase58 a \<or> address_body ''b'' 58 isBase32 a \<or>
      address_body ''B'' 58 isBase32Upper a \<or> address_body ''z'' 48 isBase58 a \<or>
      address_body ''F'' 50 isHexUpper a)"

definition ipfs_address_url :: "string \<Rightarrow> bool" where
  "ipfs_address_url s = (case strip_prefix ''ipfs://'' s of None \<Rightarrow> False | Some a \<Rightarrow> known_address a)"

section \<open>An example run\<close>

text \<open>
  A small environment for concrete runs: a metadata directory with two token files (the
  second without name and image) and a file that does not parse, a media directory, and a
  file system that accepts every write. The hash function and the serialiser of this
  environment are stand-ins.
\<close>

definition example_parse :: "string \<Rightarrow> error + json" where
  "example_parse data =
     (if data = ''{name: One, image: x}''
      then Inr (JObject [(''name'', JString ''One''), (''image'', JString ''x'')])
      else if data = ''{description: x}''
      then Inr (JObject [(''description'', JString ''x'')])
      else if data = ''{name: 0, image: x}''
      then Inr (JObject [(''name'', JNumber (Fin 0)), (''image'', JString ''x'')])
      else Inl (Error ''SyntaxError''))"

definition example_env :: env where
  "example_env =
     \<lparr>readdir = (\<lambda>d. if d = ''meta'' then Inr [''1.json'', ''2.json'', ''notes.txt'']
                      else if d = ''broken'' then Inr [''1.json'', ''3.json'']
                      else if d = ''falsy'' then Inr [''4.json'', ''1.json'']
                      else if d = ''media'' then Inr [''icon-3.png'', ''5.jpg'', ''5.xyz'', ''README'']
                      else Inl (Error ''ENOENT'')),
      readFile = (\<lambda>p. if p = ''meta/1.json'' \<or> p = ''broken/1.json'' \<or> p = ''falsy/1.json''
                        then Inr ''{name: One, image: x}''
                      else if p = ''meta/2.json'' then Inr ''{description: x}''
                      else if p = ''broken/3.json'' then Inr ''{name: ''
                      else if p = ''falsy/4.json'' then Inr ''{name: 0, image: x}''
                      else if p = ''media/image-1.png'' \<or> p = ''media/1000000000000000000000.png'' \<or>
                              p = ''media/1152921504606846976.png''
                        then Inr ''png-a''
                      else if p = ''media/1.jpg'' then Inr ''jpg-b''
                      else Inl (Error ''ENOENT'')),
      JSON_parse = example_parse,
      path_join = (\<lambda>a b. a @ ''/'' @ b),
      sharp_metadata = (\<lambda>p. if p = ''media/image-1.png'' \<or> p = ''media/1.jpg'' \<or>
                                 p = ''media/1000000000000000000000.png'' \<or>
                                 p = ''media/1152921504606846976.png''
                              then Inr \<lparr>info_width = Some 64, info_height = Some 32\<rparr>
                              else Inl (Error ''Input file is missing'')),
      keccak256 = (\<lambda>content. replicate 32 (CHR 0x00)),
      JSON_stringify = (\<lambda>m. ''{}''),
      mkdir = (\<lambda>d. Inr ()),
      writeFile = (\<lambda>p data. Inr ())\<rparr>"

text \<open>The same environment with a file system that refuses every write.\<close>

definition readonly_env :: env where
  "readonly_env = example_env\<lparr>writeFile := (\<lambda>p data. Inl (Error ''EACCES''))\<rparr>"

definition example_token :: OpenSeaToken where
  "example_token =
     \<lparr>token_file = ''meta/1.json'', token_index = Finite 1,
      token_metadata = JObject [(''name'', JString ''One''), (''image'', JString ''x'')]\<rparr>"

definition example_media :: "MediaFileInfo list" where
  "example_media =
     [\<lparr>media_file = ''media/icon-1.png'', media_category = Icon,
       media_index = Finite 1, media_extension = ''png''\<rparr>,
      \<lparr>media_file = ''media/image-1.png'', media_category = Image,
       media_index = Finite 1, media_extension = ''png''\<rparr>,
      \<lparr>media_file = ''media/1.jpg'', media_category = Image,
       media_index = Finite 1, media_extension = ''jpg''\<rparr>,
      \<lparr>media_file = ''media/2.png'', media_category = Image,
       media_index = Finite 2, media_extension = ''png''\<rparr>]"

section \<open>Properties of the number conversions\<close>

lemma round_double_small: "n < 2 ^ 53 \<Longrightarrow> round_double n = Finite n"
  by (simp add: round_double_def)

lemma bitlen_bounds: "0 < n \<Longrightarrow> 2 ^ (bitlen n - 1) \<le> n \<and> n < 2 ^ bitlen n"
proof (induction n rule: bitlen.induct)
  case (1 n)
  show ?case
  proof (cases "n div 2 = 0")
    case True
    with "1.prems" have "n = 1" by (simp add: div_eq_0_iff) 
    then show ?thesis by (simp add: bitlen.simps)
  next
    case False
    then have pos: "0 < n div 2" by simp
    from "1.IH" "1.prems" pos
    have ih: "2 ^ (bitlen (n div 2) - 1) \<le> n div 2" "n div 2 < 2 ^ bitlen (n div 2)" by auto
    have bl: "bitlen n = Suc (bitlen (n div 2))" using "1.prems" by (subst bitlen.simps) simp
    have "0 < bitlen (n div 2)" using pos by (subst bitlen.simps) simp
    then obtain k where k: "bitlen (n div 2) = Suc k" by (cases "bitlen (n div 2)") auto
    from ih k have "2 * 2 ^ k \<le> n" by simp
    moreover from ih(2) have "n < 2 * 2 ^ bitlen (n div 2)" by linarith
    ultimately show ?thesis using bl k by simp
  qed
qed

lemma round_double_large:
  assumes "2 ^ 53 \<le> c" and "round_double c = Finite w"
  shows "2 ^ 53 \<le> w"
proof -
  have cpos: "0 < c" using assms(1) by (simp add: order_less_le_trans[of 0 "2^53"])
  define e where "e = bitlen c - 53"
  define q where "q = c div 2 ^ e"
  define q' where "q' = (if 2 ^ (e - 1) < c mod 2 ^ e \<or> (c mod 2 ^ e = 2 ^ (e - 1) \<and> odd q) then q + 1 else q)"
  from bitlen_bounds[OF cpos] have lo: "2 ^ (bitlen c - 1) \<le> c" and hi: "c < 2 ^ bitlen c" by auto
  have b54: "53 < bitlen c"
  proof (rule ccontr)
    assume "\<not> 53 < bitlen c"
    then have "bitlen c \<le> 53" by simp
    then have "(2::nat) ^ bitlen c \<le> 2 ^ 53" by (rule power_increasing) simp
    with hi assms(1) show False by linarith
  qed
  then have e1: "1 \<le> e" and be: "bitlen c - 1 = 52 + e" by (auto simp: e_def)
  have "(2::nat) ^ 52 * 2 ^ e \<le> c" using lo be by (simp add: power_add)
  then have "2 ^ 52 \<le> q" unfolding q_def
    by (metis div_le_mono nonzero_mult_div_cancel_right power_not_zero zero_neq_numeral)
  then have q52: "2 ^ 52 \<le> q'" by (simp add: q'_def)
  have e2: "(2::nat) \<le> 2 ^ e" using e1 power_increasing[of 1 e "2::nat"] by simp
  have "(2::nat) ^ 52 * 2 \<le> q' * 2 ^ e" using q52 e2 by (rule mult_le_mono)
  then have big: "2 ^ 53 \<le> q' * 2 ^ e" by simp
  from assms have "w = q' * 2 ^ e"
    by (auto simp: round_double_def Let_def e_def q_def q'_def split: if_splits)
  with big show ?thesis by simp
qed

lemma round_double_safe_inj:
  assumes "round_double c = Finite v" and "v < 2 ^ 53"
  shows "c = v"
proof (cases "c < 2 ^ 53")
  case True
  with assms show ?thesis by (simp add: round_double_small)
next
  case False
  then have "2 ^ 53 \<le> v" using round_double_large[of c v] assms(1) by simp
  with assms(2) show ?thesis by simp
qed

lemma shortest_numeral_safe: "v < 2 ^ 53 \<Longrightarrow> shortest_numeral v = v"
proof -
  assume v: "v < 2 ^ 53"
  show ?thesis
  proof (cases "filter (\<lambda>c. round_double c = Finite v) (candidates v)")
    case Nil
    then show ?thesis by (simp add: shortest_numeral_def)
  next
    case (Cons c cs)
    then have "c \<in> set (filter (\<lambda>c. round_double c = Finite v) (candidates v))" by simp
    then have "round_double c = Finite v" by simp
    then have "c = v" using v by (rule round_double_safe_inj)
    with Cons show ?thesis by (simp add: shortest_numeral_def)
  qed
qed

lemma length_decimal_le: "n < 10 ^ Suc k \<Longrightarrow> length (decimal n) \<le> Suc k"
proof (induction k arbitrary: n)
  case 0
  then show ?case by (subst decimal.simps) simp
next
  case (Suc k)
  show ?case
  proof (cases "n < 10")
    case True
    then show ?thesis by (subst decimal.simps) simp
  next
    case False
    from Suc.prems have "n div 10 < 10 ^ Suc k" by (simp add: less_mult_imp_div_less)
    then have "length (decimal (n div 10)) \<le> Suc k" by (rule Suc.IH)
    with False show ?thesis by (subst decimal.simps) simp
  qed
qed

lemma Number_toString_safe: "n < 2 ^ 53 \<Longrightarrow> Number_toString (Finite n) = decimal n"
proof -
  assume n: "n < 2 ^ 53"
  then have "n < 10 ^ Suc 15" by simp
  then have "length (decimal n) \<le> 16" using length_decimal_le[of n 15] by simp
  with n show ?thesis by (simp add: Number_toString_def shortest_numeral_safe)
qed

lemma digit_char_val: "d < 10 \<Longrightarrow> digit_val (digit_char d) = d"
  by (simp add: digit_val_def digit_char_def code_def)

lemma digits_value_snoc: "digits_value (ds @ [c]) = 10 * digits_value ds + digit_val c"
  by (simp add: digits_value_def)

lemma digits_value_decimal: "digits_value (decimal n) = n"
proof (induction n rule: decimal.induct)
  case (1 n)
  show ?case
  proof (cases "n < 10")
    case True
    then show ?thesis by (subst decimal.simps) (simp add: digits_value_def digit_char_val)
  next
    case False
    with 1 have "digits_value (decimal (n div 10)) = n div 10" by simp
    with False show ?thesis
      by (subst decimal.simps) (simp add: digits_value_snoc digit_char_val)
  qed
qed

section \<open>File name classification\<close>

lemmas char_class_defs = isDigit_def isLower_def isBase58_def isBase32_def isBase32Upper_def
  isHexUpper_def in_range_def code_def

lemmas media_name_defs = parseMediaFile_def basename_def mediaNamePattern_exec_def
  category_prefix_def isImageTypeSupported_def Number_def digits_value_def digit_val_def

lemma tokenMetadataNamePattern_exec_iff:
  "tokenMetadataNamePattern_exec S = Some ds \<longleftrightarrow>
     ds \<noteq> [] \<and> list_all isDigit ds \<and> S = ds @ ''.json''"
proof
  assume "tokenMetadataNamePattern_exec S = Some ds"
  then have ds: "ds = takeWhile isDigit S" and ne: "ds \<noteq> []"
    and rest: "dropWhile isDigit S = ''.json''"
    by (auto simp: tokenMetadataNamePattern_exec_def Let_def split: if_splits)
  have "list_all isDigit ds" unfolding ds list_all_iff by (auto dest: set_takeWhileD)
  moreover have "S = ds @ ''.json''" using takeWhile_dropWhile_id[of isDigit S] ds rest by simp
  ultimately show "ds \<noteq> [] \<and> list_all isDigit ds \<and> S = ds @ ''.json''" using ne by simp
next
  assume a: "ds \<noteq> [] \<and> list_all isDigit ds \<and> S = ds @ ''.json''"
  then have all: "\<forall>c\<in>set ds. isDigit c" by (simp add: list_all_iff)
  have nd: "\<not> isDigit CHR ''.''" by (simp add: char_class_defs)
  have "takeWhile isDigit (ds @ ''.json'') = ds" using all nd by (simp add: takeWhile_append2)
  moreover have "dropWhile isDigit (ds @ ''.json'') = ''.json''"
    using all nd by (simp add: dropWhile_append2)
  ultimately show "tokenMetadataNamePattern_exec S = Some ds"
    using a by (simp add: tokenMetadataNamePattern_exec_def Let_def)
qed

text \<open>
  Claim C5, as the code has it. A name is accepted exactly when it is a non-empty sequence of
  decimal digits followed by \<^verbatim>\<open>.json\<close>. The index is \<^verbatim>\<open>Number\<close> of the digits: their
  decimal value rounded to a double, which is the decimal value itself whenever that is
  below \<open>2 ^ 53\<close> (so \<^verbatim>\<open>007.json\<close> has index 7). The function is a total HOL function of
  its argument alone.
\<close>

theorem parseTokenMetadataName_index:
  "(parseTokenMetadataName S \<noteq> None \<longleftrightarrow>
      (\<exists>ds. ds \<noteq> [] \<and> list_all isDigit ds \<and> S = ds @ ''.json'')) \<and>
   (ds \<noteq> [] \<and> list_all isDigit ds \<longrightarrow>
      parseTokenMetadataName (ds @ ''.json'') = Some (round_double (digits_value ds)) \<and>
      (digits_value ds < 2 ^ 53 \<longrightarrow>
         parseTokenMetadataName (ds @ ''.json'') = Some (Finite (digits_value ds))))"
proof (intro conjI impI)
  show "parseTokenMetadataName S \<noteq> None \<longleftrightarrow>
      (\<exists>ds. ds \<noteq> [] \<and> list_all isDigit ds \<and> S = ds @ ''.json'')"
    using tokenMetadataNamePattern_exec_iff[of S]
    by (cases "tokenMetadataNamePattern_exec S") (auto simp: parseTokenMetadataName_def)
next
  assume a: "ds \<noteq> [] \<and> list_all isDigit ds"
  then have m: "tokenMetadataNamePattern_exec (ds @ ''.json'') = Some ds"
    by (simp add: tokenMetadataNamePattern_exec_iff)
  then show r: "parseTokenMetadataName (ds @ ''.json'') = Some (round_double (digits_value ds))"
    by (simp add: parseTokenMetadataName_def Number_def)
  assume "digits_value ds < 2 ^ 53"
  then show "parseTokenMetadataName (ds @ ''.json'') = Some (Finite (digits_value ds))"
    using r by (simp add: round_double_small)
qed

theorem parseTokenMetadataName_index_witness:
  "parseTokenMetadataName ''007.json'' \<noteq> None \<and> ''007'' \<noteq> [] \<and> list_all isDigit ''007'' \<and>
   digits_value ''007'' < 2 ^ 53 \<and> parseTokenMetadataName ''007.json'' = Some (Finite 7)"
  using parseTokenMetadataName_index[of "''007.json''" "''007''"]
  by (simp add: char_class_defs digits_value_def digit_val_def round_double_small)

text \<open>
  Claim C5 as stated fails on a name of sixteen digits: the index of
  \<^verbatim>\<open>9007199254740993.json\<close> is 9007199254740992, not the decimal value of its digits.
\<close>

theorem parseTokenMetadataName_rounds_counterexample:
  "parseTokenMetadataName ''9007199254740993.json'' = Some (Finite 9007199254740992) \<and>
   digits_value ''9007199254740993'' = 9007199254740993 \<and>
   parseTokenMetadataName ''9007199254740993.json'' \<noteq> Some (Finite (digits_value ''9007199254740993''))"
  by (simp add: parseTokenMetadataName_def tokenMetadataNamePattern_exec_def char_class_defs
      Number_def digits_value_def digit_val_def round_double_def bitlen.simps Let_def)

lemma readMediaFiles_eq:
  "readMediaFiles E dir files =
     (concat (map (\<lambda>f. fst (parseMediaFile (path_join E dir f))) files),
      List.map_filter (\<lambda>f. snd (parseMediaFile (path_join E dir f))) files)"
  by (induction files) (auto simp: List.map_filter_simps split: prod.splits option.splits)

text \<open>
  Claim C6. \<^verbatim>\<open>icon-3.png\<close> is an icon with index 3 and extension \<^verbatim>\<open>png\<close>; \<^verbatim>\<open>5.jpg\<close>
  is an image; \<^verbatim>\<open>5.xyz\<close> gives a warning and no record; a name that does not match the
  pattern gives no record and no warning; and the scan of a directory returns exactly the
  records of its files, in listing order, with exactly their warnings.
\<close>

theorem parseMediaFile_classification:
  "parseMediaFile ''icon-3.png'' =
     ([], Some \<lparr>media_file = ''icon-3.png'', media_category = Icon,
                media_index = Finite 3, media_extension = ''png''\<rparr>) \<and>
   parseMediaFile ''5.jpg'' =
     ([], Some \<lparr>media_file = ''5.jpg'', media_category = Image,
                media_index = Finite 5, media_extension = ''jpg''\<rparr>) \<and>
   parseMediaFile ''5.xyz'' = ([unsupported_warning ''xyz'' ''5.xyz''], None) \<and>
   (mediaNamePattern_exec (basename f) = None \<longrightarrow> parseMediaFile f = ([], None)) \<and>
   (readdir E dir = Inr files \<longrightarrow>
      readMediaDir E dir =
        (concat (map (\<lambda>f. fst (parseMediaFile (path_join E dir f))) files),
         Inr (List.map_filter (\<lambda>f. snd (parseMediaFile (path_join E dir f))) files)))"
proof (intro conjI impI)
  show "parseMediaFile ''icon-3.png'' =
     ([], Some \<lparr>media_file = ''icon-3.png'', media_category = Icon,
                media_index = Finite 3, media_extension = ''png''\<rparr>)"
    by (simp add: media_name_defs char_class_defs round_double_small)
  show "parseMediaFile ''5.jpg'' =
     ([], Some \<lparr>media_file = ''5.jpg'', media_category = Image,
                media_index = Finite 5, media_extension = ''jpg''\<rparr>)"
    by (simp add: media_name_defs char_class_defs round_double_small)
  show "parseMediaFile ''5.xyz'' = ([unsupported_warning ''xyz'' ''5.xyz''], None)"
    by (simp add: media_name_defs char_class_defs round_double_small)
  show "parseMediaFile f = ([], None)" if "mediaNamePattern_exec (basename f) = None"
    using that by (simp add: parseMediaFile_def)
  show "readMediaDir E dir =
        (concat (map (\<lambda>f. fst (parseMediaFile (path_join E dir f))) files),
         Inr (List.map_filter (\<lambda>f. snd (parseMediaFile (path_join E dir f))) files))"
    if "readdir E dir = Inr files"
    using that by (simp add: readMediaDir_def readMediaFiles_eq)
qed

theorem parseMediaFile_classification_witness:
  "mediaNamePattern_exec (basename ''media/README'') = None \<and>
   parseMediaFile ''media/README'' = ([], None) \<and>
   readdir example_env ''media'' = Inr [''icon-3.png'', ''5.jpg'', ''5.xyz'', ''README''] \<and>
   readMediaDir example_env ''media'' =
     ([unsupported_warning ''xyz'' ''media/5.xyz''],
      Inr [\<lparr>media_file = ''media/icon-3.png'', media_category = Icon,
             media_index = Finite 3, media_extension = ''png''\<rparr>,
           \<lparr>media_file = ''media/5.jpg'', media_category = Image,
             media_index = Finite 5, media_extension = ''jpg''\<rparr>])"
  using parseMediaFile_classification[of "''media/README''" example_env "''media''"
      "[''icon-3.png'', ''5.jpg'', ''5.xyz'', ''README'']"]
  by (simp add: example_env_def media_name_defs char_class_defs round_double_small
      List.map_filter_simps)

section \<open>The metadata scan\<close>

lemma readMetadataFile_error:
  "snd (readMetadataFile E mf) = Inl e \<Longrightarrow>
     e = Error (''Failed to read token: '' @ mf) \<and> fst (readMetadataFile E mf) = []"
  by (auto simp: readMetadataFile_def split: option.splits sum.splits if_splits)

lemma readMetadataFile_unparsable:
  assumes "tokenMetadataNamePattern_exec (basename mf) = Some ds"
    and "readFile E mf = Inr data" and "JSON_parse E data = Inl e"
  shows "readMetadataFile E mf = ([], Inl (Error (''Failed to read token: '' @ mf)))"
  using assms by (simp add: readMetadataFile_def)

lemma readMetadataFile_parsed:
  assumes "tokenMetadataNamePattern_exec (basename mf) = Some ds"
    and "readFile E mf = Inr data" and "JSON_parse E data = Inr metadata"
  shows "readMetadataFile E mf =
           (if \<not> truthy (opt_member metadata ''name'') \<or> \<not> truthy (opt_member metadata ''image'')
            then ([missing_warning mf], Inr None)
            else ([], Inr (Some \<lparr>token_file = mf, token_index = Number ds,
                                 token_metadata = metadata\<rparr>)))"
  using assms by (simp add: readMetadataFile_def)

lemma readMetadataFile_token_file:
  "snd (readMetadataFile E mf) = Inr (Some t) \<Longrightarrow> token_file t = mf"
  by (auto simp: readMetadataFile_def split: option.splits sum.splits if_splits)

lemma readMetadataFile_no_error_output:
  "ConsoleError e \<notin> set (fst (readMetadataFile E mf))"
  by (auto simp: readMetadataFile_def missing_warning_def split: option.splits sum.splits if_splits)

lemma readMetadataFiles_append:
  "readMetadataFiles E dir (xs @ ys) =
     (case readMetadataFiles E dir xs of
        (out, Inl e) \<Rightarrow> (out, Inl e)
      | (out, Inr ts) \<Rightarrow>
          (case readMetadataFiles E dir ys of
             (out', Inl e) \<Rightarrow> (out @ out', Inl e)
           | (out', Inr ts') \<Rightarrow> (out @ out', Inr (ts @ ts'))))"
  by (induction xs) (auto split: prod.splits sum.splits option.splits)

lemma readMetadataFiles_skip:
  assumes "readMetadataFile E (path_join E dir f) = (w, Inr None)"
  shows "readMetadataFiles E dir (f # files) =
           (w @ fst (readMetadataFiles E dir files), snd (readMetadataFiles E dir files))"
  using assms by (auto split: prod.splits sum.splits)

lemma readMetadataFiles_fatal:
  assumes "f \<in> set files" and "snd (readMetadataFile E (path_join E dir f)) = Inl e"
  shows "\<exists>g\<in>set files. \<exists>out.
           readMetadataFiles E dir files = (out, Inl (Error (''Failed to read token: '' @ path_join E dir g)))"
  using assms
proof (induction files)
  case Nil
  then show ?case by simp
next
  case (Cons a files)
  obtain out r where a: "readMetadataFile E (path_join E dir a) = (out, r)" by fastforce
  show ?case
  proof (cases r)
    case (Inl e')
    with a have "e' = Error (''Failed to read token: '' @ path_join E dir a)"
      using readMetadataFile_error[of E "path_join E dir a" e'] by simp
    with a Inl show ?thesis by auto
  next
    case (Inr t)
    with a Cons.prems have "f \<in> set files" by auto
    from Cons.IH[OF this Cons.prems(2)] obtain g out' where
      g: "g \<in> set files"
      "readMetadataFiles E dir files = (out', Inl (Error (''Failed to read token: '' @ path_join E dir g)))"
      by blast
    with a Inr show ?thesis by auto
  qed
qed

lemma readMetadataFiles_ok:
  assumes "\<forall>g\<in>set files. \<forall>e. snd (readMetadataFile E (path_join E dir g)) \<noteq> Inl e"
  shows "\<exists>tokens. readMetadataFiles E dir files =
            (concat (map (\<lambda>g. fst (readMetadataFile E (path_join E dir g))) files), Inr tokens) \<and>
          set tokens = {t. \<exists>g\<in>set files. snd (readMetadataFile E (path_join E dir g)) = Inr (Some t)}"
  using assms
proof (induction files)
  case Nil
  then show ?case by simp
next
  case (Cons a files)
  then obtain tokens where ih:
    "readMetadataFiles E dir files =
       (concat (map (\<lambda>g. fst (readMetadataFile E (path_join E dir g))) files), Inr tokens)"
    "set tokens = {t. \<exists>g\<in>set files. snd (readMetadataFile E (path_join E dir g)) = Inr (Some t)}"
    by auto
  obtain out r where a: "readMetadataFile E (path_join E dir a) = (out, r)" by fastforce
  with Cons.prems obtain t where r: "r = Inr t" by (cases r) auto
  show ?case
  proof (cases t)
    case None
    with a r ih show ?thesis by auto
  next
    case (Some tk)
    with a r ih show ?thesis by auto
  qed
qed

text \<open>
  Claim C4. When a listed file matches the metadata pattern and its content does not parse,
  the scan throws the error that names the directory, whatever the other files hold: it
  returns no tokens. The error that names a file that could not be read is printed last.
\<close>

theorem readMetadataDir_unparsable_fatal:
  assumes "readdir E dir = Inr files" and "f \<in> set files"
    and "tokenMetadataNamePattern_exec (basename (path_join E dir f)) = Some ds"
    and "readFile E (path_join E dir f) = Inr data"
    and "JSON_parse E data = Inl e"
  shows "snd (readMetadataDir E dir) =
           Inl (Error (''Failed to read tokens from metadata directory: '' @ dir)) \<and>
         (\<exists>g\<in>set files. last (fst (readMetadataDir E dir)) =
            ConsoleError (Error (''Failed to read token: '' @ path_join E dir g)))"
proof -
  have "snd (readMetadataFile E (path_join E dir f)) =
          Inl (Error (''Failed to read token: '' @ path_join E dir f))"
    using readMetadataFile_unparsable[OF assms(3-5)] by simp
  from readMetadataFiles_fatal[OF assms(2) this] obtain g out where
    g: "g \<in> set files"
    "readMetadataFiles E dir files = (out, Inl (Error (''Failed to read token: '' @ path_join E dir g)))"
    by blast
  then have "readMetadataDir E dir =
      (out @ [ConsoleError (Error (''Failed to read token: '' @ path_join E dir g))],
       Inl (Error (''Failed to read tokens from metadata directory: '' @ dir)))"
    using assms(1) by (simp add: readMetadataDir_def)
  with g(1) show ?thesis by auto
qed

theorem readMetadataDir_unparsable_fatal_witness:
  "readdir example_env ''broken'' = Inr [''1.json'', ''3.json''] \<and>
   ''3.json'' \<in> set [''1.json'', ''3.json''] \<and>
   tokenMetadataNamePattern_exec (basename (path_join example_env ''broken'' ''3.json'')) = Some ''3'' \<and>
   readFile example_env (path_join example_env ''broken'' ''3.json'') = Inr ''{name: '' \<and>
   JSON_parse example_env ''{name: '' = Inl (Error ''SyntaxError'') \<and>
   snd (readMetadataDir example_env ''broken'') =
     Inl (Error ''Failed to read tokens from metadata directory: broken'')"
proof -
  have h: "readdir example_env ''broken'' = Inr [''1.json'', ''3.json'']"
    "''3.json'' \<in> set [''1.json'', ''3.json'']"
    "tokenMetadataNamePattern_exec (basename (path_join example_env ''broken'' ''3.json'')) = Some ''3''"
    "readFile example_env (path_join example_env ''broken'' ''3.json'') = Inr ''{name: ''"
    "JSON_parse example_env ''{name: '' = Inl (Error ''SyntaxError'')"
    by (simp_all add: example_env_def example_parse_def basename_def
        tokenMetadataNamePattern_exec_def char_class_defs)
  from readMetadataDir_unparsable_fatal[OF h] h show ?thesis by simp
qed

text \<open>
  Claim C7. A metadata file that parses but has no name or no image changes nothing in the
  result of the scan: the result is that of the directory without the file. When no file of
  the directory is fatal, the scan succeeds, prints the warning for the file and no error,
  returns no token for it, and returns the token of every file that has one.
\<close>

theorem readMetadataDir_missing_field_skipped:
  assumes "readdir E dir = Inr files" and "files = pre @ f # post"
    and "tokenMetadataNamePattern_exec (basename (path_join E dir f)) = Some ds"
    and "readFile E (path_join E dir f) = Inr data"
    and "JSON_parse E data = Inr metadata"
    and "opt_member metadata ''name'' = None \<or> opt_member metadata ''image'' = None"
  shows "snd (readMetadataFiles E dir files) = snd (readMetadataFiles E dir (pre @ post)) \<and>
         ((\<forall>g\<in>set files. \<forall>e. snd (readMetadataFile E (path_join E dir g)) \<noteq> Inl e) \<longrightarrow>
          (\<exists>out tokens. readMetadataDir E dir = (out, Inr tokens) \<and>
             missing_warning (path_join E dir f) \<in> set out \<and>
             (\<forall>e. ConsoleError e \<notin> set out) \<and>
             (\<forall>t\<in>set tokens. token_file t \<noteq> path_join E dir f) \<and>
             (\<forall>g\<in>set files. \<forall>t. snd (readMetadataFile E (path_join E dir g)) = Inr (Some t)
                \<longrightarrow> t \<in> set tokens)))"
proof (intro conjI impI)
  have skip: "readMetadataFile E (path_join E dir f) = ([missing_warning (path_join E dir f)], Inr None)"
    using readMetadataFile_parsed[OF assms(3-5)] assms(6) by auto
  have cons: "snd (readMetadataFiles E dir (f # post)) = snd (readMetadataFiles E dir post)"
    using readMetadataFiles_skip[OF skip] by simp
  show "snd (readMetadataFiles E dir files) = snd (readMetadataFiles E dir (pre @ post))"
    unfolding assms(2) readMetadataFiles_append[of E dir pre]
    using cons by (auto split: prod.splits sum.splits)
  assume ok: "\<forall>g\<in>set files. \<forall>e. snd (readMetadataFile E (path_join E dir g)) \<noteq> Inl e"
  from readMetadataFiles_ok[OF ok] obtain tokens where t:
    "readMetadataFiles E dir files =
       (concat (map (\<lambda>g. fst (readMetadataFile E (path_join E dir g))) files), Inr tokens)"
    "set tokens = {t. \<exists>g\<in>set files. snd (readMetadataFile E (path_join E dir g)) = Inr (Some t)}"
    by blast
  let ?out = "concat (map (\<lambda>g. fst (readMetadataFile E (path_join E dir g))) files)"
  have 1: "readMetadataDir E dir = (?out, Inr tokens)"
    using assms(1) t(1) by (simp add: readMetadataDir_def)
  have "f \<in> set files" using assms(2) by simp
  then have 2: "missing_warning (path_join E dir f) \<in> set ?out"
    using skip by (auto intro!: bexI[of _ f])
  have 3: "\<forall>e. ConsoleError e \<notin> set ?out"
    using readMetadataFile_no_error_output by auto
  have 4: "\<forall>t\<in>set tokens. token_file t \<noteq> path_join E dir f"
  proof
    fix tk assume "tk \<in> set tokens"
    then obtain g where "snd (readMetadataFile E (path_join E dir g)) = Inr (Some tk)"
      using t(2) by auto
    then show "token_file tk \<noteq> path_join E dir f"
      using readMetadataFile_token_file[of E "path_join E dir g" tk] skip by auto
  qed
  have 5: "\<forall>g\<in>set files. \<forall>t. snd (readMetadataFile E (path_join E dir g)) = Inr (Some t)
                \<longrightarrow> t \<in> set tokens"
    using t(2) by auto
  from 1 2 3 4 5
  show "\<exists>out tokens. readMetadataDir E dir = (out, Inr tokens) \<and>
             missing_warning (path_join E dir f) \<in> set out \<and>
             (\<forall>e. ConsoleError e \<notin> set out) \<and>
             (\<forall>t\<in>set tokens. token_file t \<noteq> path_join E dir f) \<and>
             (\<forall>g\<in>set files. \<forall>t. snd (readMetadataFile E (path_join E dir g)) = Inr (Some t)
                \<longrightarrow> t \<in> set tokens)"
    by blast
qed

theorem readMetadataDir_missing_field_skipped_witness:
  "readdir example_env ''meta'' = Inr [''1.json'', ''2.json'', ''notes.txt''] \<and>
   [''1.json'', ''2.json'', ''notes.txt''] = [''1.json''] @ ''2.json'' # [''notes.txt''] \<and>
   tokenMetadataNamePattern_exec (basename (path_join example_env ''meta'' ''2.json'')) = Some ''2'' \<and>
   readFile example_env (path_join example_env ''meta'' ''2.json'') = Inr ''{description: x}'' \<and>
   JSON_parse example_env ''{description: x}'' = Inr (JObject [(''description'', JString ''x'')]) \<and>
   opt_member (JObject [(''description'', JString ''x'')]) ''name'' = None \<and>
   snd (readMetadataFile example_env (path_join example_env ''meta'' ''1.json'')) =
     Inr (Some \<lparr>token_file = ''meta/1.json'', token_index = Finite 1,
                 token_metadata = JObject [(''name'', JString ''One''), (''image'', JString ''x'')]\<rparr>) \<and>
   snd (readMetadataFile example_env (path_join example_env ''meta'' ''2.json'')) = Inr None \<and>
   snd (readMetadataFile example_env (path_join example_env ''meta'' ''notes.txt'')) = Inr None \<and>
   (\<exists>out tokens. readMetadataDir example_env ''meta'' = (out, Inr tokens) \<and>
      missing_warning ''meta/2.json'' \<in> set out \<and>
      \<lparr>token_file = ''meta/1.json'', token_index = Finite 1,
        token_metadata = JObject [(''name'', JString ''One''), (''image'', JString ''x'')]\<rparr> \<in> set tokens)"
proof -
  have h: "readdir example_env ''meta'' = Inr [''1.json'', ''2.json'', ''notes.txt'']"
    "[''1.json'', ''2.json'', ''notes.txt''] = [''1.json''] @ ''2.json'' # [''notes.txt'']"
    "tokenMetadataNamePattern_exec (basename (path_join example_env ''meta'' ''2.json'')) = Some ''2''"
    "readFile example_env (path_join example_env ''meta'' ''2.json'') = Inr ''{description: x}''"
    "JSON_parse example_env ''{description: x}'' = Inr (JObject [(''description'', JString ''x'')])"
    "opt_member (JObject [(''description'', JString ''x'')]) ''name'' = None \<or>
     opt_member (JObject [(''description'', JString ''x'')]) ''image'' = None"
    by (simp_all add: example_env_def example_parse_def basename_def
        tokenMetadataNamePattern_exec_def char_class_defs)
  have one: "snd (readMetadataFile example_env (path_join example_env ''meta'' ''1.json'')) =
      Inr (Some \<lparr>token_file = ''meta/1.json'', token_index = Finite 1,
        token_metadata = JObject [(''name'', JString ''One''), (''image'', JString ''x'')]\<rparr>)"
    by (simp add: readMetadataFile_def example_env_def example_parse_def basename_def
        tokenMetadataNamePattern_exec_def char_class_defs Number_def digits_value_def
        digit_val_def round_double_small)
  have two: "snd (readMetadataFile example_env (path_join example_env ''meta'' ''2.json'')) = Inr None"
    by (simp add: readMetadataFile_def example_env_def example_parse_def basename_def
        tokenMetadataNamePattern_exec_def char_class_defs)
  have three: "snd (readMetadataFile example_env (path_join example_env ''meta'' ''notes.txt'')) = Inr None"
    by (simp add: readMetadataFile_def example_env_def example_parse_def basename_def
        tokenMetadataNamePattern_exec_def char_class_defs)
  have ok: "\<forall>g\<in>set [''1.json'', ''2.json'', ''notes.txt''].
      \<forall>e. snd (readMetadataFile example_env (path_join example_env ''meta'' g)) \<noteq> Inl e"
    using one two three by simp
  from readMetadataDir_missing_field_skipped[OF h]
  have "(\<forall>g\<in>set [''1.json'', ''2.json'', ''notes.txt''].
      \<forall>e. snd (readMetadataFile example_env (path_join example_env ''meta'' g)) \<noteq> Inl e) \<longrightarrow>
    (\<exists>out tokens. readMetadataDir example_env ''meta'' = (out, Inr tokens) \<and>
       missing_warning (path_join example_env ''meta'' ''2.json'') \<in> set out \<and>
       (\<forall>e. ConsoleError e \<notin> set out) \<and>
       (\<forall>t\<in>set tokens. token_file t \<noteq> path_join example_env ''meta'' ''2.json'') \<and>
       (\<forall>g\<in>set [''1.json'', ''2.json'', ''notes.txt'']. \<forall>t.
          snd (readMetadataFile example_env (path_join example_env ''meta'' g)) = Inr (Some t)
          \<longrightarrow> t \<in> set tokens))"
    by (rule conjunct2)
  from this ok have "\<exists>out tokens. readMetadataDir example_env ''meta'' = (out, Inr tokens) \<and>
       missing_warning (path_join example_env ''meta'' ''2.json'') \<in> set out \<and>
       (\<forall>e. ConsoleError e \<notin> set out) \<and>
       (\<forall>t\<in>set tokens. token_file t \<noteq> path_join example_env ''meta'' ''2.json'') \<and>
       (\<forall>g\<in>set [''1.json'', ''2.json'', ''notes.txt'']. \<forall>t.
          snd (readMetadataFile example_env (path_join example_env ''meta'' g)) = Inr (Some t)
          \<longrightarrow> t \<in> set tokens)"
    by (rule mp)
  then obtain out tokens where r: "readMetadataDir example_env ''meta'' = (out, Inr tokens)"
    "missing_warning (path_join example_env ''meta'' ''2.json'') \<in> set out"
    "\<forall>g\<in>set [''1.json'', ''2.json'', ''notes.txt'']. \<forall>t.
       snd (readMetadataFile example_env (path_join example_env ''meta'' g)) = Inr (Some t)
       \<longrightarrow> t \<in> set tokens"
    by (elim exE conjE)
  have "''1.json'' \<in> set [''1.json'', ''2.json'', ''notes.txt'']" by simp
  from r(3)[rule_format, OF this one] have "\<lparr>token_file = ''meta/1.json'', token_index = Finite 1,
        token_metadata = JObject [(''name'', JString ''One''), (''image'', JString ''x'')]\<rparr> \<in> set tokens" .
  moreover have "path_join example_env ''meta'' ''2.json'' = ''meta/2.json''"
    by (simp add: example_env_def)
  ultimately have ex: "\<exists>out tokens. readMetadataDir example_env ''meta'' = (out, Inr tokens) \<and>
      missing_warning ''meta/2.json'' \<in> set out \<and>
      \<lparr>token_file = ''meta/1.json'', token_index = Finite 1,
        token_metadata = JObject [(''name'', JString ''One''), (''image'', JString ''x'')]\<rparr> \<in> set tokens"
    using r(1,2) by (intro exI[of _ out] exI[of _ tokens]) (simp only: simp_thms)
  have k: "opt_member (JObject [(''description'', JString ''x'')]) ''name'' = None" by simp
  from h(1) h(2) h(3) h(4) h(5) k one two three ex show ?thesis by - (intro conjI; assumption)
qed

lemma truthy_iff:
  "truthy x \<longleftrightarrow> x \<noteq> None \<and> x \<noteq> Some JNull \<and> x \<noteq> Some (JBool False) \<and>
     x \<noteq> Some (JNumber (Fin 0)) \<and> x \<noteq> Some (JString [])"
  by (cases x rule: truthy.cases) auto

text \<open>
  Claim C10. A file that parses yields a token exactly when its name and its image are
  both truthy. A name or image that is present but \<^verbatim>\<open>null\<close>, \<^verbatim>\<open>false\<close>, 0 or the
  empty string is treated as an absent one: the file adds the missing-name-and/or-image
  warning and no token.
\<close>

theorem readMetadataFile_truthiness_gate:
  assumes "tokenMetadataNamePattern_exec (basename (path_join E dir f)) = Some ds"
    and "readFile E (path_join E dir f) = Inr data"
    and "JSON_parse E data = Inr metadata"
  shows "((\<exists>t. snd (readMetadataFile E (path_join E dir f)) = Inr (Some t)) \<longleftrightarrow>
            truthy (opt_member metadata ''name'') \<and> truthy (opt_member metadata ''image'')) \<and>
         ((\<exists>k v. (k = ''name'' \<or> k = ''image'') \<and> opt_member metadata k = Some v \<and>
                 (v = JNull \<or> v = JBool False \<or> v = JNumber (Fin 0) \<or> v = JString [])) \<longrightarrow>
            readMetadataFiles E dir (f # files) =
              (missing_warning (path_join E dir f) # fst (readMetadataFiles E dir files),
               snd (readMetadataFiles E dir files)))"
proof (intro conjI impI)
  note p = readMetadataFile_parsed[OF assms]
  show "(\<exists>t. snd (readMetadataFile E (path_join E dir f)) = Inr (Some t)) \<longleftrightarrow>
            truthy (opt_member metadata ''name'') \<and> truthy (opt_member metadata ''image'')"
    unfolding p by auto
  assume "\<exists>k v. (k = ''name'' \<or> k = ''image'') \<and> opt_member metadata k = Some v \<and>
                 (v = JNull \<or> v = JBool False \<or> v = JNumber (Fin 0) \<or> v = JString [])"
  then have "\<not> truthy (opt_member metadata ''name'') \<or> \<not> truthy (opt_member metadata ''image'')"
    by (auto simp: truthy_iff)
  then have "readMetadataFile E (path_join E dir f) =
      ([missing_warning (path_join E dir f)], Inr None)"
    using p by auto
  from readMetadataFiles_skip[OF this]
  show "readMetadataFiles E dir (f # files) =
              (missing_warning (path_join E dir f) # fst (readMetadataFiles E dir files),
               snd (readMetadataFiles E dir files))"
    by simp
qed

theorem readMetadataFile_truthiness_gate_witness:
  "tokenMetadataNamePattern_exec (basename (path_join example_env ''falsy'' ''4.json'')) = Some ''4'' \<and>
   readFile example_env (path_join example_env ''falsy'' ''4.json'') = Inr ''{name: 0, image: x}'' \<and>
   JSON_parse example_env ''{name: 0, image: x}'' =
     Inr (JObject [(''name'', JNumber (Fin 0)), (''image'', JString ''x'')]) \<and>
   opt_member (JObject [(''name'', JNumber (Fin 0)), (''image'', JString ''x'')]) ''name'' =
     Some (JNumber (Fin 0)) \<and>
   readMetadataFiles example_env ''falsy'' [''4.json''] = ([missing_warning ''falsy/4.json''], Inr [])"
proof -
  have h: "tokenMetadataNamePattern_exec (basename (path_join example_env ''falsy'' ''4.json'')) = Some ''4''"
    "readFile example_env (path_join example_env ''falsy'' ''4.json'') = Inr ''{name: 0, image: x}''"
    "JSON_parse example_env ''{name: 0, image: x}'' =
       Inr (JObject [(''name'', JNumber (Fin 0)), (''image'', JString ''x'')])"
    by (simp_all add: example_env_def example_parse_def basename_def
        tokenMetadataNamePattern_exec_def char_class_defs)
  have k: "opt_member (JObject [(''name'', JNumber (Fin 0)), (''image'', JString ''x'')]) ''name'' =
     Some (JNumber (Fin 0))" by simp
  have p: "path_join example_env ''falsy'' ''4.json'' = ''falsy/4.json''"
    by (simp add: example_env_def)
  have "\<exists>k v. (k = ''name'' \<or> k = ''image'') \<and>
      opt_member (JObject [(''name'', JNumber (Fin 0)), (''image'', JString ''x'')]) k = Some v \<and>
      (v = JNull \<or> v = JBool False \<or> v = JNumber (Fin 0) \<or> v = JString [])"
    using k by (intro exI[of _ "''name''"] exI[of _ "JNumber (Fin 0)"]) simp
  with conjunct2[OF readMetadataFile_truthiness_gate[OF h, of "[]"]]
  have "readMetadataFiles example_env ''falsy'' [''4.json''] =
      (missing_warning (path_join example_env ''falsy'' ''4.json'') #
       fst (readMetadataFiles example_env ''falsy'' []),
       snd (readMetadataFiles example_env ''falsy'' []))"
    by (rule mp)
  then show ?thesis using h k p by simp
qed

section \<open>Rendering an index\<close>

lemma decimal_nonempty: "decimal n \<noteq> []"
  by (subst decimal.simps) simp

lemma decimal_no_leading_zero: "hd (decimal n) = CHR ''0'' \<Longrightarrow> n = 0"
proof (induction n rule: decimal.induct)
  case (1 n)
  show ?case
  proof (cases "n < 10")
    case True
    with "1.prems" have "digit_char n = CHR ''0''" by (subst (asm) decimal.simps) simp
    then have "of_char (digit_char n) = (48::nat)" by simp
    with True show ?thesis by (simp add: digit_char_def)
  next
    case False
    with "1.prems" have "hd (decimal (n div 10)) = CHR ''0''"
      by (subst (asm) decimal.simps) (simp add: decimal_nonempty)
    with 1 False have "n div 10 = 0" by simp
    with False show ?thesis by simp
  qed
qed


lemma Number_007: "Number ''007'' = Finite 7"
  by (simp add: Number_def digits_value_def digit_val_def code_def round_double_small)

lemma decimal_digit: "n < 10 \<Longrightarrow> decimal n = [digit_char n]"
  by (subst decimal.simps) simp


lemma candidates_first:
  "\<exists>cs. candidates v =
     (let p = 10 ^ (length (decimal v) - 1); lo = v - v mod p; hi = lo + p
      in if v - lo < hi - v \<or> (v - lo = hi - v \<and> even (lo div p)) then lo else hi) # cs"
proof -
  have "[1..<18] = 1 # [2..<18]" by (simp add: upt_conv_Cons)
  then show ?thesis by (simp add: candidates_def Let_def)
qed

lemma shortest_numeral_first:
  assumes "candidates v = c # cs" and "round_double c = Finite v"
  shows "shortest_numeral v = c"
  using assms by (simp add: shortest_numeral_def)

lemma len_1e21: "length (decimal 1000000000000000000000) = 22"
  by (simp add: decimal.simps)

lemma round_1e21: "round_double 1000000000000000000000 = Finite 1000000000000000000000"
  by (simp add: round_double_def bitlen.simps Let_def)

lemma shortest_numeral_1e21: "shortest_numeral 1000000000000000000000 = 1000000000000000000000"
proof -
  from candidates_first[of 1000000000000000000000] obtain cs where
    "candidates 1000000000000000000000 = 1000000000000000000000 # cs"
    by (auto simp: len_1e21 Let_def)
  then show ?thesis using round_1e21 by (rule shortest_numeral_first)
qed

lemma decimal_1e21: "decimal 1000000000000000000000 = ''1000000000000000000000''"
  by (simp add: decimal.simps digit_char_def char_of_eq_iff)

lemma toString_1e21: "Number_toString (Finite 1000000000000000000000) = ''1e+21''"
  by (simp add: Number_toString_def shortest_numeral_1e21 exponent_form_def strip_zeros_def
      decimal_1e21 Let_def) (simp add: decimal.simps digit_char_def char_of_eq_iff)

lemma Number_1e21: "Number ''1000000000000000000000'' = Finite 1000000000000000000000"
  by (simp add: Number_def digits_value_def digit_val_def code_def round_1e21)

lemma length_decimal_2_60: "length (decimal 1152921504606846976) = 19"
  by (simp add: decimal.simps)
lemma candidates_2_60: "candidates 1152921504606846976 =
  [1000000000000000000, 2000000000000000000, 1200000000000000000, 1100000000000000000,
   1150000000000000000, 1160000000000000000, 1153000000000000000, 1152000000000000000,
   1152900000000000000, 1153000000000000000, 1152920000000000000, 1152930000000000000,
   1152922000000000000, 1152921000000000000, 1152921500000000000, 1152921600000000000,
   1152921500000000000, 1152921510000000000, 1152921505000000000, 1152921504000000000,
   1152921504600000000, 1152921504700000000, 1152921504610000000, 1152921504600000000,
   1152921504607000000, 1152921504606000000, 1152921504606800000, 1152921504606900000,
   1152921504606850000, 1152921504606840000, 1152921504606847000, 1152921504606846000,
   1152921504606847000, 1152921504606846900]"
  by (simp add: candidates_def length_decimal_2_60 Let_def upt_conv_Cons)

lemma shortest_numeral_2_60: "shortest_numeral 1152921504606846976 = 1152921504606847000"
  by (simp add: shortest_numeral_def candidates_2_60 round_double_def bitlen.simps Let_def)

lemma toString_2_60: "Number_toString (Finite 1152921504606846976) = ''1152921504606847000''"
  by (simp add: Number_toString_def shortest_numeral_2_60 Let_def) (simp add: decimal.simps digit_char_def char_of_eq_iff)

lemma Number_2_60: "Number ''1152921504606846976'' = Finite 1152921504606846976"
  by (simp add: Number_def digits_value_def digit_val_def code_def round_double_def bitlen.simps Let_def)

section \<open>The description of a media file\<close>

lemma buildFileInfo_Inr:
  assumes "media_category info = Image" and "buildFileInfo E baseUri info = Inr r"
  shows "\<exists>w h content. readFile E (media_file info) = Inr content \<and>
           r = Some \<lparr>width = w, height = h, hashFunction = ''keccak256(bytes)'',
                      hash = ''0x'' @ hex (keccak256 E content),
                      url = baseUri @ ''/'' @ Number_toString (media_index info) @ ''.'' @
                            media_extension info\<rparr>"
  using assms
  by (auto simp: buildFileInfo_def split: sum.splits option.splits if_splits)

text \<open>
  Claim C8, as the code has it. When \<^verbatim>\<open>buildFileInfo\<close> returns for an image record, it
  returns a description whose hash is \<^verbatim>\<open>0x\<close> followed by the hexadecimal digest of the
  whole content of the file, and whose URL is the base URI, \<^verbatim>\<open>/\<close>, the index converted to
  a string, \<^verbatim>\<open>.\<close> and the extension. For an index below \<open>2 ^ 53\<close> that string is the
  decimal numeral of the index, which has no leading zero.
\<close>

theorem buildFileInfo_url_hash:
  assumes "media_category info = Image" and "buildFileInfo E baseUri info = Inr r"
  shows "\<exists>d content. r = Some d \<and> readFile E (media_file info) = Inr content \<and>
           hash d = ''0x'' @ hex (keccak256 E content) \<and>
           url d = baseUri @ ''/'' @ Number_toString (media_index info) @ ''.'' @
                   media_extension info \<and>
           (\<forall>n. media_index info = Finite n \<and> n < 2 ^ 53 \<longrightarrow>
              url d = baseUri @ ''/'' @ decimal n @ ''.'' @ media_extension info \<and>
              (hd (decimal n) = CHR ''0'' \<longrightarrow> n = 0))"
proof -
  from buildFileInfo_Inr[OF assms] obtain w h content where
    c: "readFile E (media_file info) = Inr content"
    and r: "r = Some \<lparr>width = w, height = h, hashFunction = ''keccak256(bytes)'',
                      hash = ''0x'' @ hex (keccak256 E content),
                      url = baseUri @ ''/'' @ Number_toString (media_index info) @ ''.'' @
                            media_extension info\<rparr>"
    by blast
  show ?thesis
    unfolding r using c
    by (auto simp: Number_toString_safe dest: decimal_no_leading_zero)
qed


theorem buildFileInfo_url_hash_witness:
  "media_category \<lparr>media_file = ''media/image-1.png'', media_category = Image,
                    media_index = Number ''007'', media_extension = ''png''\<rparr> = Image \<and>
   (\<exists>d. buildFileInfo example_env ''ipfs://base''
           \<lparr>media_file = ''media/image-1.png'', media_category = Image,
             media_index = Number ''007'', media_extension = ''png''\<rparr> = Inr (Some d) \<and>
        hash d = ''0x'' @ hex (keccak256 example_env ''png-a'') \<and>
        url d = ''ipfs://base/7.png'')"
proof -
  let ?i = "\<lparr>media_file = ''media/image-1.png'', media_category = Image,
              media_index = Number ''007'', media_extension = ''png''\<rparr>"
  let ?d = "\<lparr>width = 64, height = 32, hashFunction = ''keccak256(bytes)'',
              hash = ''0x'' @ hex (keccak256 example_env ''png-a''),
              url = ''ipfs://base/'' @ Number_toString (Finite 7) @ ''.png''\<rparr>"
  have h1: "media_category ?i = Image" by simp
  have h2: "buildFileInfo example_env ''ipfs://base'' ?i = Inr (Some ?d)"
    by (simp add: buildFileInfo_def example_env_def Number_007)
  from buildFileInfo_url_hash[OF h1 h2] obtain d content where
    d: "Some ?d = Some d" "readFile example_env (media_file ?i) = Inr content"
       "hash d = ''0x'' @ hex (keccak256 example_env content)"
       "\<forall>n. media_index ?i = Finite n \<and> n < 2 ^ 53 \<longrightarrow>
              url d = ''ipfs://base'' @ ''/'' @ decimal n @ ''.'' @ media_extension ?i \<and>
              (hd (decimal n) = CHR ''0'' \<longrightarrow> n = 0)"
    by blast
  have "media_index ?i = Finite 7 \<and> (7::nat) < 2 ^ 53" by (simp add: Number_007)
  with d(4) have "url d = ''ipfs://base'' @ ''/'' @ decimal 7 @ ''.'' @ media_extension ?i"
    by blast
  then have u: "url d = ''ipfs://base/7.png''"
    by (simp add: decimal_digit digit_char_def char_of_eq_iff)
  have "content = ''png-a''" using d(2) by (simp add: example_env_def)
  with d(3) have hh: "hash d = ''0x'' @ hex (keccak256 example_env ''png-a'')" by simp
  from h2 d(1) have "buildFileInfo example_env ''ipfs://base'' ?i = Inr (Some d)" by simp
  with u hh have "\<exists>d. buildFileInfo example_env ''ipfs://base'' ?i = Inr (Some d) \<and>
        hash d = ''0x'' @ hex (keccak256 example_env ''png-a'') \<and>
        url d = ''ipfs://base/7.png''" by blast
  with h1 show ?thesis by (rule conjI)
qed

text \<open>
  Claim C8 as stated fails for a large index. The record of
  \<^verbatim>\<open>1000000000000000000000.png\<close> has index \<open>10 ^ 21\<close>, and its URL ends in
  \<^verbatim>\<open>1e+21.png\<close>; the record of \<^verbatim>\<open>1152921504606846976.png\<close> has index \<open>2 ^ 60\<close>, and
  its URL ends in \<^verbatim>\<open>1152921504606847000.png\<close>. Neither is the decimal numeral of the
  index.
\<close>

theorem buildFileInfo_exponent_counterexample:
  "snd (parseMediaFile ''media/1000000000000000000000.png'') =
     Some \<lparr>media_file = ''media/1000000000000000000000.png'', media_category = Image,
            media_index = Finite 1000000000000000000000, media_extension = ''png''\<rparr> \<and>
   buildFileInfo example_env ''ipfs://base''
     \<lparr>media_file = ''media/1000000000000000000000.png'', media_category = Image,
       media_index = Finite 1000000000000000000000, media_extension = ''png''\<rparr> =
     Inr (Some \<lparr>width = 64, height = 32, hashFunction = ''keccak256(bytes)'',
                hash = ''0x'' @ hex (keccak256 example_env ''png-a''),
                url = ''ipfs://base/1e+21.png''\<rparr>) \<and>
   decimal 1000000000000000000000 = ''1000000000000000000000'' \<and>
   snd (parseMediaFile ''media/1152921504606846976.png'') =
     Some \<lparr>media_file = ''media/1152921504606846976.png'', media_category = Image,
            media_index = Finite 1152921504606846976, media_extension = ''png''\<rparr> \<and>
   buildFileInfo example_env ''ipfs://base''
     \<lparr>media_file = ''media/1152921504606846976.png'', media_category = Image,
       media_index = Finite 1152921504606846976, media_extension = ''png''\<rparr> =
     Inr (Some \<lparr>width = 64, height = 32, hashFunction = ''keccak256(bytes)'',
                hash = ''0x'' @ hex (keccak256 example_env ''png-a''),
                url = ''ipfs://base/1152921504606847000.png''\<rparr>)"
proof (intro conjI)
  show "snd (parseMediaFile ''media/1000000000000000000000.png'') =
     Some \<lparr>media_file = ''media/1000000000000000000000.png'', media_category = Image,
            media_index = Finite 1000000000000000000000, media_extension = ''png''\<rparr>"
    by (simp add: parseMediaFile_def basename_def mediaNamePattern_exec_def category_prefix_def
        isImageTypeSupported_def char_class_defs Number_1e21)
  show "buildFileInfo example_env ''ipfs://base''
     \<lparr>media_file = ''media/1000000000000000000000.png'', media_category = Image,
       media_index = Finite 1000000000000000000000, media_extension = ''png''\<rparr> =
     Inr (Some \<lparr>width = 64, height = 32, hashFunction = ''keccak256(bytes)'',
                hash = ''0x'' @ hex (keccak256 example_env ''png-a''),
                url = ''ipfs://base/1e+21.png''\<rparr>)"
    by (simp add: buildFileInfo_def example_env_def toString_1e21)
  show "decimal 1000000000000000000000 = ''1000000000000000000000''"
    by (rule decimal_1e21)
  show "snd (parseMediaFile ''media/1152921504606846976.png'') =
     Some \<lparr>media_file = ''media/1152921504606846976.png'', media_category = Image,
            media_index = Finite 1152921504606846976, media_extension = ''png''\<rparr>"
    by (simp add: parseMediaFile_def basename_def mediaNamePattern_exec_def category_prefix_def
        isImageTypeSupported_def char_class_defs Number_2_60)
  show "buildFileInfo example_env ''ipfs://base''
     \<lparr>media_file = ''media/1152921504606846976.png'', media_category = Image,
       media_index = Finite 1152921504606846976, media_extension = ''png''\<rparr> =
     Inr (Some \<lparr>width = 64, height = 32, hashFunction = ''keccak256(bytes)'',
                hash = ''0x'' @ hex (keccak256 example_env ''png-a''),
                url = ''ipfs://base/1152921504606847000.png''\<rparr>)"
    by (simp add: buildFileInfo_def example_env_def toString_2_60)
qed

section \<open>The assembled record\<close>

lemma find_Icon: "find (\<lambda>info. media_index info = i \<and> media_category info = Icon) ms = Some x
  \<Longrightarrow> media_category x = Icon"
  by (auto simp: find_Some_iff)

lemma buildIcon_None: "buildIcon E baseUri mediaFiles i = Inr None"
  by (auto simp: buildIcon_def findIcon_def buildFileInfo_def split: option.splits dest: find_Icon)

text \<open>
  Claim C1 fails on the code: \<^verbatim>\<open>buildFileInfo\<close> handles the category \<^verbatim>\<open>image\<close> only, so
  for an icon record it returns \<^verbatim>\<open>undefined\<close>, and the icon field of every assembled
  record is \<^verbatim>\<open>undefined\<close>, whatever the media records are.
\<close>

theorem icon_never_embedded:
  "(media_category info = Icon \<longrightarrow> buildFileInfo E baseUri info = Inr None) \<and>
   (tokenMetadata E baseUri lnks mediaFiles token = Inr m \<longrightarrow> icon m = None)"
  by (auto simp: tokenMetadata_def buildIcon_None buildFileInfo_def split: sum.splits)

theorem icon_never_embedded_witness:
  "media_category (hd example_media) = Icon \<and>
   buildFileInfo example_env ''ipfs://base'' (hd example_media) = Inr None \<and>
   findIcon (Some example_media) (token_index example_token) = Some (hd example_media) \<and>
   (\<exists>m. tokenMetadata example_env ''ipfs://base'' None (Some example_media) example_token = Inr m \<and>
        icon m = None)"
proof -
  have c: "media_category (hd example_media) = Icon" by (simp add: example_media_def)
  have f: "findIcon (Some example_media) (token_index example_token) = Some (hd example_media)"
    by (simp add: findIcon_def example_media_def example_token_def)
  obtain m where m: "tokenMetadata example_env ''ipfs://base'' None (Some example_media) example_token = Inr m"
    by (simp add: tokenMetadata_def map_attributes_def member_def example_token_def buildIcon_None
        buildImages_def example_media_def buildFileInfo_def example_env_def)
  note t = icon_never_embedded[of "hd example_media" example_env "''ipfs://base''" None
      "Some example_media" example_token m]
  from t c have 1: "buildFileInfo example_env ''ipfs://base'' (hd example_media) = Inr None" by blast
  from t m have "icon m = None" by blast
  with m have 2: "\<exists>m. tokenMetadata example_env ''ipfs://base'' None (Some example_media) example_token = Inr m \<and>
        icon m = None" by blast
  from c 1 f 2 show ?thesis by - (intro conjI; assumption)
qed


text \<open>
  Claim C3 on the code: for a token with index 1 and media records icon 1, image 1 (twice)
  and image 2, the images field is one inner array of the two descriptions of index 1, and
  nothing of index 2 appears; but the icon field is \<^verbatim>\<open>undefined\<close>, not a description.
\<close>

theorem join_example_icon_missing:
  "tokenMetadata example_env ''ipfs://base'' None (Some example_media) example_token =
     Inr \<lparr>name = Some (JString ''One''), description = None, attributes = None,
          icon = None,
          images = Some [[Some \<lparr>width = 64, height = 32, hashFunction = ''keccak256(bytes)'',
                                 hash = ''0x'' @ hex (keccak256 example_env ''png-a''),
                                 url = ''ipfs://base/1.png''\<rparr>,
                          Some \<lparr>width = 64, height = 32, hashFunction = ''keccak256(bytes)'',
                                 hash = ''0x'' @ hex (keccak256 example_env ''jpg-b''),
                                 url = ''ipfs://base/1.jpg''\<rparr>]],
          links = None\<rparr>"
proof -
  have "Number_toString (Finite 1) = ''1''"
    by (simp add: Number_toString_safe decimal_digit digit_char_def char_of_eq_iff)
  then have s: "Number_toString (Finite (Suc 0)) = ''1''" by simp
  show ?thesis
    by (simp add: tokenMetadata_def map_attributes_def member_def example_token_def buildIcon_None
        buildImages_def example_media_def buildFileInfo_def example_env_def s)
qed

section \<open>Progress reporting\<close>

lemma buildToken_cases:
  "(\<exists>e. buildToken E outputDir baseUri lnks mediaFiles token = ([], Inl e)) \<or>
   (\<exists>f data e. buildToken E outputDir baseUri lnks mediaFiles token = ([WriteFile f data], Inl e)) \<or>
   (\<exists>f data. buildToken E outputDir baseUri lnks mediaFiles token =
      ([WriteFile f data, ProgressIncrement], Inr ()))"
  by (auto simp: buildToken_def Let_def split: sum.splits)

lemma buildToken_count:
  "count_list (fst (buildToken E outputDir baseUri lnks mediaFiles token)) ProgressIncrement =
     (if snd (buildToken E outputDir baseUri lnks mediaFiles token) = Inr () then 1 else 0)"
  using buildToken_cases[of E outputDir baseUri lnks mediaFiles token] by auto

lemma buildToken_no_stop:
  "ProgressStop \<notin> set (fst (buildToken E outputDir baseUri lnks mediaFiles token))"
  using buildToken_cases[of E outputDir baseUri lnks mediaFiles token] by auto

lemma buildTokens_no_stop:
  "ProgressStop \<notin> set (fst (buildTokens E outputDir baseUri lnks mediaFiles tokens))"
proof (induction tokens)
  case Nil
  then show ?case by simp
next
  case (Cons t ts)
  obtain out r where t: "buildToken E outputDir baseUri lnks mediaFiles t = (out, r)" by fastforce
  have "ProgressStop \<notin> set out"
    using buildToken_no_stop[of E outputDir baseUri lnks mediaFiles t] t by simp
  with Cons t show ?case by (cases r) (auto split: prod.splits)
qed

lemma buildTokens_progress:
  "\<exists>k\<le>length tokens.
     count_list (fst (buildTokens E outputDir baseUri lnks mediaFiles tokens)) ProgressIncrement = k \<and>
     (\<forall>i<k. snd (buildToken E outputDir baseUri lnks mediaFiles (tokens ! i)) = Inr ()) \<and>
     (k = length tokens \<longrightarrow> snd (buildTokens E outputDir baseUri lnks mediaFiles tokens) = Inr ()) \<and>
     (k < length tokens \<longrightarrow>
        (\<exists>e. snd (buildToken E outputDir baseUri lnks mediaFiles (tokens ! k)) = Inl e \<and>
             snd (buildTokens E outputDir baseUri lnks mediaFiles tokens) = Inl e))"
proof (induction tokens)
  case Nil
  then show ?case by simp
next
  case (Cons t ts)
  let ?bt = "\<lambda>x. buildToken E outputDir baseUri lnks mediaFiles x"
  let ?bts = "\<lambda>xs. buildTokens E outputDir baseUri lnks mediaFiles xs"
  obtain out r where t: "?bt t = (out, r)" by fastforce
  show ?case
  proof (cases r)
    case (Inl e)
    with t have c: "count_list out ProgressIncrement = 0"
      using buildToken_count[of E outputDir baseUri lnks mediaFiles t] by simp
    from t Inl have "?bts (t # ts) = (out, Inl e)" by simp
    with c t Inl show ?thesis by (intro exI[of _ 0]) simp
  next
    case (Inr u)
    with t have c: "count_list out ProgressIncrement = 1"
      using buildToken_count[of E outputDir baseUri lnks mediaFiles t] by simp
    from Cons.IH obtain k where k: "k \<le> length ts"
      "count_list (fst (?bts ts)) ProgressIncrement = k"
      "\<forall>i<k. snd (?bt (ts ! i)) = Inr ()"
      "k = length ts \<longrightarrow> snd (?bts ts) = Inr ()"
      "k < length ts \<longrightarrow> (\<exists>e. snd (?bt (ts ! k)) = Inl e \<and> snd (?bts ts) = Inl e)"
      by blast
    obtain out' r' where ts: "?bts ts = (out', r')" by fastforce
    from t Inr ts have step: "?bts (t # ts) = (out @ out', r')" by simp
    then have sf: "fst (?bts (t # ts)) = out @ out'" and ss: "snd (?bts (t # ts)) = r'"
      by simp_all
    from ts have tf: "fst (?bts ts) = out'" and tss: "snd (?bts ts) = r'" by simp_all
    have 1: "count_list (fst (?bts (t # ts))) ProgressIncrement = Suc k"
      unfolding sf using c k(2) tf by simp
    have 2: "\<forall>i<Suc k. snd (?bt ((t # ts) ! i)) = Inr ()"
      using k(3) t Inr by (auto simp: less_Suc_eq_0_disj)
    have 3: "Suc k = length (t # ts) \<longrightarrow> snd (?bts (t # ts)) = Inr ()"
      unfolding ss using k(4) tss by simp
    have 4: "Suc k < length (t # ts) \<longrightarrow>
        (\<exists>e. snd (?bt ((t # ts) ! Suc k)) = Inl e \<and> snd (?bts (t # ts)) = Inl e)"
      unfolding ss using k(5) tss by simp
    from k(1) 1 2 3 4 show ?thesis by (intro exI[of _ "Suc k"]) simp
  qed
qed

text \<open>
  Claim C9, as the code has it. Once the output directory exists, \<^verbatim>\<open>progress.stop()\<close> is
  the last thing \<^verbatim>\<open>buildMetadata\<close> does and is done exactly once, whether it returns or
  throws. The number of progress increments is the number \<open>k\<close> of tokens whose iteration
  ran to its end: all tokens when nothing throws; otherwise the tokens before the first one
  whose iteration throws, and that error is the one \<^verbatim>\<open>buildMetadata\<close> throws.
\<close>

theorem buildMetadata_progress:
  assumes "mkdir E outputDir = Inr u"
  shows "last (fst (buildMetadata E outputDir baseUri lnks openSeaTokens mediaFiles)) = ProgressStop \<and>
         count_list (fst (buildMetadata E outputDir baseUri lnks openSeaTokens mediaFiles)) ProgressStop = 1 \<and>
         (\<forall>tokens. openSeaTokens = Some tokens \<longrightarrow>
            (\<exists>k\<le>length tokens.
               count_list (fst (buildMetadata E outputDir baseUri lnks openSeaTokens mediaFiles))
                 ProgressIncrement = k \<and>
               (\<forall>i<k. snd (buildToken E outputDir baseUri lnks mediaFiles (tokens ! i)) = Inr ()) \<and>
               (k = length tokens \<longrightarrow>
                  snd (buildMetadata E outputDir baseUri lnks openSeaTokens mediaFiles) = Inr ()) \<and>
               (k < length tokens \<longrightarrow>
                  (\<exists>e. snd (buildToken E outputDir baseUri lnks mediaFiles (tokens ! k)) = Inl e \<and>
                       snd (buildMetadata E outputDir baseUri lnks openSeaTokens mediaFiles) = Inl e))))"
proof (cases openSeaTokens)
  case None
  with assms show ?thesis by (simp add: buildMetadata_def)
next
  case (Some tokens)
  obtain out r where b: "buildTokens E outputDir baseUri lnks mediaFiles tokens = (out, r)"
    by fastforce
  have m: "buildMetadata E outputDir baseUri lnks openSeaTokens mediaFiles =
      (Mkdir outputDir # ProgressStart (length tokens) # out @ [ProgressStop], r)"
    using assms Some b by (simp add: buildMetadata_def)
  have ns: "ProgressStop \<notin> set out"
    using buildTokens_no_stop[of E outputDir baseUri lnks mediaFiles tokens] b by simp
  then have cs: "count_list out ProgressStop = 0" by (simp add: count_list_0_iff)
  from buildTokens_progress[of tokens E outputDir baseUri lnks mediaFiles] b
  have p: "\<exists>k\<le>length tokens. count_list out ProgressIncrement = k \<and>
     (\<forall>i<k. snd (buildToken E outputDir baseUri lnks mediaFiles (tokens ! i)) = Inr ()) \<and>
     (k = length tokens \<longrightarrow> r = Inr ()) \<and>
     (k < length tokens \<longrightarrow>
        (\<exists>e. snd (buildToken E outputDir baseUri lnks mediaFiles (tokens ! k)) = Inl e \<and> r = Inl e))"
    by simp
  show ?thesis unfolding m using cs p Some by simp
qed

theorem buildMetadata_progress_witness:
  "mkdir readonly_env ''out'' = Inr () \<and>
   buildMetadata readonly_env ''out'' ''ipfs://base'' None (Some [example_token]) (Some example_media) =
     ([Mkdir ''out'', ProgressStart 1, WriteFile ''out/1.json'' ''{}'', ProgressStop],
      Inl (Error ''EACCES'')) \<and>
   last (fst (buildMetadata readonly_env ''out'' ''ipfs://base'' None (Some [example_token])
     (Some example_media))) = ProgressStop"
proof -
  have h: "mkdir readonly_env ''out'' = Inr ()" by (simp add: readonly_env_def example_env_def)
  have m: "\<exists>m. tokenMetadata readonly_env ''ipfs://base'' None (Some example_media) example_token = Inr m"
    by (simp add: tokenMetadata_def map_attributes_def member_def example_token_def buildIcon_None
        buildImages_def example_media_def buildFileInfo_def example_env_def readonly_env_def)
  have "Number_toString (Finite 1) = ''1''"
    by (simp add: Number_toString_safe decimal_digit digit_char_def char_of_eq_iff)
  then have s: "Number_toString (Finite (Suc 0)) = ''1''" by simp
  from m obtain m where "tokenMetadata readonly_env ''ipfs://base'' None (Some example_media) example_token = Inr m" ..
  then have t: "buildToken readonly_env ''out'' ''ipfs://base'' None (Some example_media) example_token =
     ([WriteFile ''out/1.json'' ''{}''], Inl (Error ''EACCES''))"
    by (simp add: buildToken_def readonly_env_def example_env_def example_token_def s)
  have b: "buildMetadata readonly_env ''out'' ''ipfs://base'' None (Some [example_token]) (Some example_media) =
     ([Mkdir ''out'', ProgressStart 1, WriteFile ''out/1.json'' ''{}'', ProgressStop],
      Inl (Error ''EACCES''))"
    using h t by (simp add: buildMetadata_def)
  from buildMetadata_progress[OF h, of "''ipfs://base''" None "Some [example_token]" "Some example_media"]
  have l: "last (fst (buildMetadata readonly_env ''out'' ''ipfs://base'' None (Some [example_token])
     (Some example_media))) = ProgressStop" by (rule conjunct1)
  from h b l show ?thesis by - (intro conjI; assumption)
qed

text \<open>
  Claim C9 as stated fails when an iteration throws: with one token and a file system that
  refuses the write, one token has been processed and no progress increment is reported.
\<close>

theorem buildMetadata_progress_counterexample:
  "buildMetadata readonly_env ''out'' ''ipfs://base'' None (Some [example_token]) (Some example_media) =
     ([Mkdir ''out'', ProgressStart 1, WriteFile ''out/1.json'' ''{}'', ProgressStop],
      Inl (Error ''EACCES'')) \<and>
   length [example_token] = 1 \<and>
   count_list [Mkdir ''out'', ProgressStart 1, WriteFile ''out/1.json'' ''{}'', ProgressStop]
     ProgressIncrement = 0"
proof -
  have h: "mkdir readonly_env ''out'' = Inr ()" by (simp add: readonly_env_def example_env_def)
  have m: "\<exists>m. tokenMetadata readonly_env ''ipfs://base'' None (Some example_media) example_token = Inr m"
    by (simp add: tokenMetadata_def map_attributes_def member_def example_token_def buildIcon_None
        buildImages_def example_media_def buildFileInfo_def example_env_def readonly_env_def)
  have "Number_toString (Finite 1) = ''1''"
    by (simp add: Number_toString_safe decimal_digit digit_char_def char_of_eq_iff)
  then have s: "Number_toString (Finite (Suc 0)) = ''1''" by simp
  from m obtain m where "tokenMetadata readonly_env ''ipfs://base'' None (Some example_media) example_token = Inr m" ..
  then have t: "buildToken readonly_env ''out'' ''ipfs://base'' None (Some example_media) example_token =
     ([WriteFile ''out/1.json'' ''{}''], Inl (Error ''EACCES''))"
    by (simp add: buildToken_def readonly_env_def example_env_def example_token_def s)
  have b: "buildMetadata readonly_env ''out'' ''ipfs://base'' None (Some [example_token]) (Some example_media) =
     ([Mkdir ''out'', ProgressStart 1, WriteFile ''out/1.json'' ''{}'', ProgressStop],
      Inl (Error ''EACCES''))"
    using h t by (simp add: buildMetadata_def)
  show ?thesis using b by simp
qed

section \<open>The base URI validator\<close>

lemma strip_prefix_iff: "strip_prefix p s = Some t \<longleftrightarrow> s = p @ t"
  by (induction p s rule: strip_prefix.induct) auto

lemma strip_prefix_None_iff: "strip_prefix p s = None \<longleftrightarrow> (\<forall>t. s \<noteq> p @ t)"
  using strip_prefix_iff[of p s] by (cases "strip_prefix p s") auto

lemma at_least_iff:
  "at_least n P s \<longleftrightarrow> (\<exists>body suf. s = body @ suf \<and> n \<le> length body \<and> list_all P body)"
proof
  assume "at_least n P s"
  then have "n \<le> length (takeWhile P s)" by (simp add: at_least_def)
  moreover have "list_all P (takeWhile P s)" by (auto simp: list_all_iff dest: set_takeWhileD)
  moreover have "s = takeWhile P s @ dropWhile P s" by simp
  ultimately show "\<exists>body suf. s = body @ suf \<and> n \<le> length body \<and> list_all P body" by blast
next
  assume "\<exists>body suf. s = body @ suf \<and> n \<le> length body \<and> list_all P body"
  then obtain body suf where b: "s = body @ suf" "n \<le> length body" "list_all P body" by blast
  then have "takeWhile P s = body @ takeWhile P suf"
    by (simp add: takeWhile_append2 list_all_iff)
  with b(2) show "at_least n P s" by (simp add: at_least_def)
qed

lemma strip_prefix_case:
  "(case strip_prefix p s of None \<Rightarrow> False | Some t \<Rightarrow> Q t) \<longleftrightarrow> (\<exists>t. s = p @ t \<and> Q t)"
proof (cases "strip_prefix p s")
  case None
  then have "\<forall>t. s \<noteq> p @ t" by (simp add: strip_prefix_None_iff)
  with None show ?thesis by simp
next
  case (Some t)
  then have "s = p @ t" by (simp add: strip_prefix_iff)
  with Some show ?thesis by auto
qed

lemma address_body_iff:
  "address_body lit n P a \<longleftrightarrow> (\<exists>body. a = lit @ body \<and> n \<le> length body \<and> list_all P body)"
  unfolding address_body_def strip_prefix_case ..

lemma after_literal_iff:
  "after_literal lit n P s \<longleftrightarrow> (\<exists>a suf. s = a @ suf \<and> address_body lit n P a)"
proof -
  have "after_literal lit n P s \<longleftrightarrow>
          (\<exists>t. s = lit @ t \<and> (\<exists>body suf. t = body @ suf \<and> n \<le> length body \<and> list_all P body))"
    unfolding after_literal_def strip_prefix_case at_least_iff ..
  also have "\<dots> \<longleftrightarrow> (\<exists>a suf. s = a @ suf \<and>
      (\<exists>body. a = lit @ body \<and> n \<le> length body \<and> list_all P body))"
    by (metis append.assoc)
  finally show ?thesis unfolding address_body_iff .
qed

lemma ex_split_disj5:
  "((\<exists>a s. R a s \<and> A a) \<or> (\<exists>a s. R a s \<and> B a) \<or> (\<exists>a s. R a s \<and> C a) \<or>
    (\<exists>a s. R a s \<and> D a) \<or> (\<exists>a s. R a s \<and> F a)) \<longleftrightarrow>
   (\<exists>a s. R a s \<and> (A a \<or> B a \<or> C a \<or> D a \<or> F a))"
  by (simp only: ex_disj_distrib conj_disj_distribL)

lemma scheme_then_address:
  "(\<exists>t. s = sch @ t \<and> (\<exists>a suf. t = a @ suf \<and> K a)) \<longleftrightarrow>
   (\<exists>u suf. s = u @ suf \<and> (\<exists>a. u = sch @ a \<and> K a))"
proof
  assume "\<exists>t. s = sch @ t \<and> (\<exists>a suf. t = a @ suf \<and> K a)"
  then obtain a suf where "s = sch @ a @ suf" "K a" by blast
  then have "s = (sch @ a) @ suf \<and> (\<exists>b. sch @ a = sch @ b \<and> K b)" by simp
  then show "\<exists>u suf. s = u @ suf \<and> (\<exists>a. u = sch @ a \<and> K a)" by blast
next
  assume "\<exists>u suf. s = u @ suf \<and> (\<exists>a. u = sch @ a \<and> K a)"
  then obtain a suf where "s = (sch @ a) @ suf" "K a" by blast
  then have "s = sch @ (a @ suf) \<and> (\<exists>b suf'. a @ suf = b @ suf' \<and> K b)" by auto
  then show "\<exists>t. s = sch @ t \<and> (\<exists>a suf. t = a @ suf \<and> K a)" by blast
qed

lemma uriPattern_here_iff:
  "uriPattern_here s \<longleftrightarrow> (\<exists>u suf. s = u @ suf \<and> ipfs_address_url u)"
  unfolding uriPattern_here_def ipfs_address_url_def strip_prefix_case after_literal_iff
    ex_split_disj5 known_address_def[symmetric]
  by (rule scheme_then_address)

lemma uriPattern_exec_iff:
  "uriPattern_exec s \<longleftrightarrow> (\<exists>pre t. s = pre @ t \<and> uriPattern_here t)"
proof (induction s)
  case Nil
  then show ?case by simp
next
  case (Cons c cs)
  show ?case
  proof
    assume "uriPattern_exec (c # cs)"
    then consider "uriPattern_here (c # cs)" | "uriPattern_exec cs" by auto
    then show "\<exists>pre t. c # cs = pre @ t \<and> uriPattern_here t"
    proof cases
      case 1
      then have "c # cs = [] @ (c # cs) \<and> uriPattern_here (c # cs)" by simp
      then show ?thesis by blast
    next
      case 2
      with Cons.IH obtain pre t where "cs = pre @ t" "uriPattern_here t" by blast
      then have "c # cs = (c # pre) @ t \<and> uriPattern_here t" by simp
      then show ?thesis by blast
    qed
  next
    assume "\<exists>pre t. c # cs = pre @ t \<and> uriPattern_here t"
    then obtain pre t where p: "c # cs = pre @ t" "uriPattern_here t" by blast
    show "uriPattern_exec (c # cs)"
    proof (cases pre)
      case Nil
      with p have "uriPattern_here (c # cs)" by simp
      then show ?thesis by simp
    next
      case (Cons d pre')
      with p have "cs = pre' @ t" by simp
      with p(2) Cons.IH have "uriPattern_exec cs" by blast
      then show ?thesis by simp
    qed
  qed
qed

lemma uriPattern_exec_contains:
  "uriPattern_exec s \<longleftrightarrow> (\<exists>pre u suf. s = pre @ u @ suf \<and> ipfs_address_url u)"
  unfolding uriPattern_exec_iff uriPattern_here_iff by blast

text \<open>
  What the validator accepts: exactly the strings that contain, at any position, the scheme
  token followed by an address in one of the five formats. Every other input gets the
  message; the validator never throws.
\<close>

lemma validate_baseUri_accepts:
  "(validate_baseUri input = Valid \<longleftrightarrow>
      (\<exists>pre u suf. input = JString (pre @ u @ suf) \<and> ipfs_address_url u)) \<and>
   (validate_baseUri input \<noteq> Valid \<longrightarrow> validate_baseUri input = Message invalid_message)"
proof -
  have "validate_baseUri input = Valid \<longleftrightarrow> (\<exists>s. input = JString s \<and> uriPattern_exec s)"
    by (cases input) (auto simp: validate_baseUri_def IpfsUrl_def)
  moreover have "validate_baseUri input \<noteq> Valid \<longrightarrow> validate_baseUri input = Message invalid_message"
    by (auto simp: validate_baseUri_def split: sum.splits)
  ultimately show ?thesis unfolding uriPattern_exec_contains by (metis json.inject(3))
qed

lemmas uri_eval_defs = validate_baseUri_def IpfsUrl_def uriPattern_here_def after_literal_def
  at_least_def ipfs_address_url_def known_address_def address_body_def
  isDigit_def isLower_def isBase58_def isBase32_def isBase32Upper_def isHexUpper_def in_range_def code_def

lemma validate_baseUri_examples:
  "ipfs_address_url ''ipfs://bafybeiesesamfxkgronf4pf4maauei6svfas4vvzlhm7o4kzwnvbb3h5i4'' \<and>
   validate_baseUri (JString ''ipfs://bafybeiesesamfxkgronf4pf4maauei6svfas4vvzlhm7o4kzwnvbb3h5i4'') = Valid \<and>
   validate_baseUri (JString ''https://example.org/media'') \<noteq> Valid \<and>
   validate_baseUri (JString ''https://example.org/media'') = Message invalid_message"
proof -
  let ?u = "''ipfs://bafybeiesesamfxkgronf4pf4maauei6svfas4vvzlhm7o4kzwnvbb3h5i4''"
  have u: "ipfs_address_url ?u" by (simp add: uri_eval_defs)
  then have "JString ?u = JString ([] @ ?u @ []) \<and> ipfs_address_url ?u" by simp
  then have "\<exists>pre u suf. JString ?u = JString (pre @ u @ suf) \<and> ipfs_address_url u" by blast
  with conjunct1[OF validate_baseUri_accepts[of "JString ?u"]]
  have v: "validate_baseUri (JString ?u) = Valid"
    by (rule iffD2)
  have n: "validate_baseUri (JString ''https://example.org/media'') \<noteq> Valid"
    by (simp add: uri_eval_defs)
  from conjunct2[OF validate_baseUri_accepts[of "JString ''https://example.org/media''"]] n
  have m: "validate_baseUri (JString ''https://example.org/media'') = Message invalid_message"
    by (rule mp)
  from u v n m show ?thesis by - (intro conjI; assumption)
qed

text \<open>
  Claim C2 fails on the code. The pattern of \<^verbatim>\<open>IpfsUrl\<close> has no anchors, so an input that
  is not an ipfs address, but only contains one, is accepted as a valid IPFS URL; the whole
  input is then the base URI in front of every URL that \<^verbatim>\<open>buildFileInfo\<close> builds.
\<close>

theorem validate_baseUri_accepts_non_url:
  "validate_baseUri (JString ''see ipfs://QmYwAPJzv5CZsnA625s3Xf2nemtYgPpHdWEz79ojWnPbdG for details'') = Valid \<and>
   \<not> ipfs_address_url ''see ipfs://QmYwAPJzv5CZsnA625s3Xf2nemtYgPpHdWEz79ojWnPbdG for details'' \<and>
   buildFileInfo example_env ''see ipfs://QmYwAPJzv5CZsnA625s3Xf2nemtYgPpHdWEz79ojWnPbdG for details''
     \<lparr>media_file = ''media/image-1.png'', media_category = Image,
       media_index = Finite 1, media_extension = ''png''\<rparr> =
     Inr (Some \<lparr>width = 64, height = 32, hashFunction = ''keccak256(bytes)'',
                hash = ''0x'' @ hex (keccak256 example_env ''png-a''),
                url = ''see ipfs://QmYwAPJzv5CZsnA625s3Xf2nemtYgPpHdWEz79ojWnPbdG for details/1.png''\<rparr>)"
proof (intro conjI)
  show "validate_baseUri (JString ''see ipfs://QmYwAPJzv5CZsnA625s3Xf2nemtYgPpHdWEz79ojWnPbdG for details'') = Valid"
    by (simp add: uri_eval_defs)
  show "\<not> ipfs_address_url ''see ipfs://QmYwAPJzv5CZsnA625s3Xf2nemtYgPpHdWEz79ojWnPbdG for details''"
    by (simp add: uri_eval_defs)
  have "Number_toString (Finite 1) = ''1''"
    by (simp add: Number_toString_safe decimal_digit digit_char_def char_of_eq_iff)
  then have s: "Number_toString (Finite (Suc 0)) = ''1''" by simp
  show "buildFileInfo example_env ''see ipfs://QmYwAPJzv5CZsnA625s3Xf2nemtYgPpHdWEz79ojWnPbdG for details''
     \<lparr>media_file = ''media/image-1.png'', media_category = Image,
       media_index = Finite 1, media_extension = ''png''\<rparr> =
     Inr (Some \<lparr>width = 64, height = 32, hashFunction = ''keccak256(bytes)'',
                hash = ''0x'' @ hex (keccak256 example_env ''png-a''),
                url = ''see ipfs://QmYwAPJzv5CZsnA625s3Xf2nemtYgPpHdWEz79ojWnPbdG for details/1.png''\<rparr>)"
    by (simp add: buildFileInfo_def example_env_def s)
qed

end
